theory Spec2Isabelle
  imports Complex_Main "HOL-Library.Log_Nat" "HOL-Library.Sublist"
begin

section \<open>The autograder \<^verbatim>\<open>grade_homework.py\<close>\<close>

text \<open>
  The script extracts the code cells of a notebook, runs them in a subprocess, looks for
  the last line \<^verbatim>\<open>Ideal point: z = [a, b]\<close> of the captured output and turns the
  relative error of \<open>a\<close> against 0.005 into a score out of 10.

  The model follows the three functions of the source, \<^verbatim>\<open>execute_notebook\<close>,
  \<^verbatim>\<open>grade_result\<close> and \<^verbatim>\<open>main\<close>. What the source takes from the Python
  library is modelled below, before them: binary64 arithmetic, \<^verbatim>\<open>float\<close> and
  \<^verbatim>\<open>round\<close>, and the part of \<^verbatim>\<open>re\<close> that the two patterns of the script use.
\<close>

subsection \<open>Python floats: IEEE 754 binary64, round to nearest, ties to even\<close>

text \<open>
  A finite float is the rational number it denotes; the two zeros are identified (no
  operation of the script tells them apart). Every operation computes the exact rational
  result and rounds it once with \<open>rnd64\<close>, as IEEE 754 prescribes.
\<close>

datatype pyfloat = Fin rat | PInf | NInf | NaN

datatype exn = ValueError | IndexError | ZeroDivisionError | AttributeError | TypeError

text \<open>\<open>ilog2 x\<close> is \<open>\<lfloor>log\<^sub>2 x\<rfloor>\<close> for a positive rational \<open>x\<close>.\<close>

definition ilog2 :: "rat \<Rightarrow> int" where
  "ilog2 x = (if 1 \<le> x then bitlen \<lfloor>x\<rfloor> - 1 else - bitlen (\<lceil>1 / x\<rceil> - 1))"

definition round_half_even :: "rat \<Rightarrow> int" where
  "round_half_even x =
     (let f = \<lfloor>x\<rfloor>; d = x - of_int f
      in if d < 1 / 2 then f else if 1 / 2 < d then f + 1
         else if even f then f else f + 1)"

text \<open>
  The exponent of the last place of the binary64 numbers around \<open>a > 0\<close>: 53 significant
  bits for a normal number, \<open>2\<^sup>-\<^sup>1\<^sup>0\<^sup>7\<^sup>4\<close> for a subnormal one.
\<close>

definition quantum :: "rat \<Rightarrow> int" where
  "quantum a = max (ilog2 a - 52) (- 1074)"

definition round_mag :: "rat \<Rightarrow> rat" where
  "round_mag a = of_int (round_half_even (a / 2 powi quantum a)) * 2 powi quantum a"

definition rnd64 :: "rat \<Rightarrow> pyfloat" where
  "rnd64 x =
     (if x = 0 then Fin 0
      else let r = round_mag \<bar>x\<bar>
           in if 2 ^ 1024 \<le> r then (if 0 < x then PInf else NInf)
              else Fin (if 0 < x then r else - r))"

fun fabs :: "pyfloat \<Rightarrow> pyfloat" where
  "fabs (Fin a) = Fin \<bar>a\<bar>"
| "fabs PInf = PInf"
| "fabs NInf = PInf"
| "fabs NaN = NaN"

fun fsub :: "pyfloat \<Rightarrow> pyfloat \<Rightarrow> pyfloat" where
  "fsub (Fin a) (Fin b) = rnd64 (a - b)"
| "fsub NaN _ = NaN"
| "fsub _ NaN = NaN"
| "fsub PInf PInf = NaN"
| "fsub NInf NInf = NaN"
| "fsub PInf _ = PInf"
| "fsub NInf _ = NInf"
| "fsub (Fin a) PInf = NInf"
| "fsub (Fin a) NInf = PInf"

fun fmul :: "pyfloat \<Rightarrow> pyfloat \<Rightarrow> pyfloat" where
  "fmul (Fin a) (Fin b) = rnd64 (a * b)"
| "fmul NaN _ = NaN"
| "fmul _ NaN = NaN"
| "fmul (Fin a) PInf = (if a = 0 then NaN else if 0 < a then PInf else NInf)"
| "fmul (Fin a) NInf = (if a = 0 then NaN else if 0 < a then NInf else PInf)"
| "fmul PInf (Fin b) = (if b = 0 then NaN else if 0 < b then PInf else NInf)"
| "fmul NInf (Fin b) = (if b = 0 then NaN else if 0 < b then NInf else PInf)"
| "fmul PInf PInf = PInf"
| "fmul NInf NInf = PInf"
| "fmul PInf NInf = NInf"
| "fmul NInf PInf = NInf"

text \<open>Python's \<^verbatim>\<open>/\<close> on floats raises \<^verbatim>\<open>ZeroDivisionError\<close> for a zero divisor.\<close>

fun fdiv :: "pyfloat \<Rightarrow> pyfloat \<Rightarrow> exn + pyfloat" where
  "fdiv a (Fin b) =
     (if b = 0 then Inl ZeroDivisionError
      else case a of
          Fin x \<Rightarrow> Inr (rnd64 (x / b))
        | PInf \<Rightarrow> Inr (if 0 < b then PInf else NInf)
        | NInf \<Rightarrow> Inr (if 0 < b then NInf else PInf)
        | NaN \<Rightarrow> Inr NaN)"
| "fdiv (Fin x) PInf = Inr (Fin 0)"
| "fdiv (Fin x) NInf = Inr (Fin 0)"
| "fdiv _ _ = Inr NaN"

fun fle :: "pyfloat \<Rightarrow> pyfloat \<Rightarrow> bool" where
  "fle (Fin a) (Fin b) = (a \<le> b)"
| "fle NaN _ = False"
| "fle _ NaN = False"
| "fle NInf _ = True"
| "fle _ PInf = True"
| "fle _ _ = False"

fun flt :: "pyfloat \<Rightarrow> pyfloat \<Rightarrow> bool" where
  "flt (Fin a) (Fin b) = (a < b)"
| "flt NaN _ = False"
| "flt _ NaN = False"
| "flt PInf _ = False"
| "flt _ NInf = False"
| "flt _ _ = True"

text \<open>
  \<^verbatim>\<open>round(x, 2)\<close>: the exact value of \<open>x\<close> is rounded to two decimals, ties to
  even, and the decimal is read back as a float. Infinities and NaN round to themselves.
\<close>

fun round2 :: "pyfloat \<Rightarrow> pyfloat" where
  "round2 (Fin a) = rnd64 (of_int (round_half_even (a * 100)) / 100)"
| "round2 x = x"

subsection \<open>\<^verbatim>\<open>float(s)\<close> on a string of digits and dots\<close>

definition is_digit :: "char \<Rightarrow> bool" where
  "is_digit c = (48 \<le> (of_char c :: nat) \<and> (of_char c :: nat) \<le> 57)"

definition digits_val :: "string \<Rightarrow> nat" where
  "digits_val ds = foldl (\<lambda>n c. 10 * n + ((of_char c :: nat) - 48)) 0 ds"

text \<open>
  \<^verbatim>\<open>float\<close> is modelled on the strings the script passes to it, which are captures of
  \<^verbatim>\<open>[0-9.]+\<close>: such a string is a number when it has at least one digit and at most
  one dot, and its value is the decimal, correctly rounded; anything else raises
  \<^verbatim>\<open>ValueError\<close>. (Signs, exponents, blanks, underscores, \<^verbatim>\<open>inf\<close> and
  \<^verbatim>\<open>nan\<close>, which \<^verbatim>\<open>float\<close> also reads, contain a character outside
  \<^verbatim>\<open>[0-9.]\<close> and are not part of this model.)
\<close>

definition py_float :: "string \<Rightarrow> exn + pyfloat" where
  "py_float s =
     (let ip = takeWhile is_digit s; r = dropWhile is_digit s
      in case r of
           [] \<Rightarrow> if ip = [] then Inl ValueError else Inr (rnd64 (of_nat (digits_val ip)))
         | c # fp \<Rightarrow>
             if c = CHR ''.'' \<and> list_all is_digit fp \<and> (ip \<noteq> [] \<or> fp \<noteq> [])
             then Inr (rnd64 (of_nat (digits_val (ip @ fp)) / 10 ^ length fp))
             else Inl ValueError)"

subsection \<open>The regular expressions of the script\<close>

text \<open>
  Both patterns are sequences of single-character classes, each taken once or under a
  greedy \<^verbatim>\<open>*\<close> or \<^verbatim>\<open>+\<close>, some of them inside a capturing group. Characters
  are 8-bit (\<open>char\<close>), which covers ASCII and Latin-1 output.
\<close>

datatype cls =
    Lit char      \<comment> \<open>a literal character\<close>
  | AnyChar       \<comment> \<open>\<^verbatim>\<open>.\<close>: any character but the newline\<close>
  | DigitDot      \<comment> \<open>\<^verbatim>\<open>[0-9.]\<close>\<close>
  | Space         \<comment> \<open>\<^verbatim>\<open>\s\<close>\<close>

datatype quant = Once | ZeroOrMore | OneOrMore

datatype item =
    Tok quant cls   \<comment> \<open>a class with its quantifier\<close>
  | Grp quant cls   \<comment> \<open>the same inside a capturing group, as in \<^verbatim>\<open>([0-9.]+)\<close>\<close>

text \<open>
  Case folding for \<^verbatim>\<open>re.IGNORECASE\<close>. The literals of the patterns are ASCII, and
  among the 8-bit characters an ASCII literal matches itself and, for a letter, the same
  letter in the other case: folding the letters \<^verbatim>\<open>A\<close> to \<^verbatim>\<open>Z\<close> decides it.
\<close>

definition lower :: "char \<Rightarrow> char" where
  "lower c = (if 65 \<le> (of_char c :: nat) \<and> (of_char c :: nat) \<le> 90
              then char_of ((of_char c :: nat) + 32) else c)"

text \<open>
  What \<^verbatim>\<open>\s\<close> matches in a \<^verbatim>\<open>str\<close> pattern, below code point 256: tab to carriage
  return, the four separators 28 to 31, the blank, NEL and the no-break space.
\<close>

definition is_space :: "char \<Rightarrow> bool" where
  "is_space c = (let n = (of_char c :: nat)
                 in (9 \<le> n \<and> n \<le> 13) \<or> (28 \<le> n \<and> n \<le> 32) \<or> n = 133 \<or> n = 160)"

text \<open>\<open>accepts ic k c\<close>: class \<open>k\<close> matches character \<open>c\<close>; \<open>ic\<close> is \<^verbatim>\<open>re.IGNORECASE\<close>.\<close>

fun accepts :: "bool \<Rightarrow> cls \<Rightarrow> char \<Rightarrow> bool" where
  "accepts ic (Lit a) c = (if ic then lower c = lower a else c = a)"
| "accepts ic AnyChar c = (c \<noteq> CHR 0x0A)"
| "accepts ic DigitDot c = (is_digit c \<or> c = CHR ''.'')"
| "accepts ic Space c = is_space c"

fun item_quant :: "item \<Rightarrow> quant" where
  "item_quant (Tok q k) = q"
| "item_quant (Grp q k) = q"

fun item_cls :: "item \<Rightarrow> cls" where
  "item_cls (Tok q k) = k"
| "item_cls (Grp q k) = k"

fun is_group :: "item \<Rightarrow> bool" where
  "is_group (Tok q k) = False"
| "is_group (Grp q k) = True"

text \<open>
  The numbers of characters an item may take at the head of \<open>s\<close>, in the order the
  backtracking matcher tries them: a greedy quantifier takes the longest run first and
  gives characters back one at a time.
\<close>

definition counts :: "bool \<Rightarrow> item \<Rightarrow> string \<Rightarrow> nat list" where
  "counts ic it s =
     (let n = length (takeWhile (accepts ic (item_cls it)) s)
      in case item_quant it of
           Once \<Rightarrow> (if 1 \<le> n then [1] else [])
         | ZeroOrMore \<Rightarrow> rev [0..<Suc n]
         | OneOrMore \<Rightarrow> rev [1..<Suc n])"

fun first_ok :: "(nat \<Rightarrow> 'a option) \<Rightarrow> nat list \<Rightarrow> 'a option" where
  "first_ok f [] = None"
| "first_ok f (k # ks) = (case f k of Some r \<Rightarrow> Some r | None \<Rightarrow> first_ok f ks)"

text \<open>
  \<open>rmatch ic p s\<close> matches the pattern \<open>p\<close> at the head of \<open>s\<close> and returns the captured
  groups and what is left of \<open>s\<close> after the match.
\<close>

fun rmatch :: "bool \<Rightarrow> item list \<Rightarrow> string \<Rightarrow> (string list \<times> string) option" where
  "rmatch ic [] s = Some ([], s)"
| "rmatch ic (it # p) s =
     first_ok
       (\<lambda>k. case rmatch ic p (drop k s) of
               None \<Rightarrow> None
             | Some (gs, r) \<Rightarrow> Some (if is_group it then take k s # gs else gs, r))
       (counts ic it s)"

text \<open>
  \<^verbatim>\<open>re.findall\<close> for a pattern with two or more groups: the tuples of groups of the
  successive non-overlapping matches, scanning from the left. The counter is the number
  of characters of the last match still to be skipped.
\<close>

fun findall_scan :: "bool \<Rightarrow> item list \<Rightarrow> nat \<Rightarrow> string \<Rightarrow> string list list" where
  "findall_scan ic p k [] =
     (if k = 0 then (case rmatch ic p [] of None \<Rightarrow> [] | Some (gs, r) \<Rightarrow> [gs]) else [])"
| "findall_scan ic p (Suc k) (x # s) = findall_scan ic p k s"
| "findall_scan ic p 0 (x # s) =
     (case rmatch ic p (x # s) of
        None \<Rightarrow> findall_scan ic p 0 s
      | Some (gs, r) \<Rightarrow> gs # findall_scan ic p (length (x # s) - length r - 1) s)"

definition re_findall :: "bool \<Rightarrow> item list \<Rightarrow> string \<Rightarrow> string list list" where
  "re_findall ic p s = findall_scan ic p 0 s"

text \<open>\<^verbatim>\<open>re.sub\<close> with a replacement string that has no group reference.\<close>

fun sub_scan :: "bool \<Rightarrow> item list \<Rightarrow> string \<Rightarrow> nat \<Rightarrow> string \<Rightarrow> string" where
  "sub_scan ic p repl k [] = (if k = 0 \<and> rmatch ic p [] \<noteq> None then repl else [])"
| "sub_scan ic p repl (Suc k) (x # s) = sub_scan ic p repl k s"
| "sub_scan ic p repl 0 (x # s) =
     (case rmatch ic p (x # s) of
        None \<Rightarrow> x # sub_scan ic p repl 0 s
      | Some (gs, r) \<Rightarrow>
          (let n = length (x # s) - length r
           in if n = 0 then repl @ x # sub_scan ic p repl 0 s
              else repl @ sub_scan ic p repl (n - 1) s))"

definition re_sub :: "bool \<Rightarrow> item list \<Rightarrow> string \<Rightarrow> string \<Rightarrow> string" where
  "re_sub ic p repl s = sub_scan ic p repl 0 s"

text \<open>\<^verbatim>\<open>r".*# YOUR CODE HERE.*"\<close>\<close>

definition placeholder_pattern :: "item list" where
  "placeholder_pattern =
     Tok ZeroOrMore AnyChar # map (\<lambda>c. Tok Once (Lit c)) ''# YOUR CODE HERE''
       @ [Tok ZeroOrMore AnyChar]"

text \<open>\<^verbatim>\<open>r"Ideal point: z = \[([0-9.]+),\s*([0-9.]+)\]"\<close>\<close>

definition ideal_point_pattern :: "item list" where
  "ideal_point_pattern =
     map (\<lambda>c. Tok Once (Lit c)) ''Ideal point: z = [''
       @ [Grp OneOrMore DigitDot, Tok Once (Lit CHR '',''), Tok ZeroOrMore Space,
          Grp OneOrMore DigitDot, Tok Once (Lit CHR '']'')]"

subsection \<open>\<^verbatim>\<open>execute_notebook\<close>\<close>

text \<open>
  A cell of the notebook as the script reads it: \<^verbatim>\<open>cell.cell_type\<close> and
  \<^verbatim>\<open>cell.source\<close>. \<^verbatim>\<open>nbformat.read\<close> only logs that a notebook does not
  follow the notebook schema and returns it all the same, so a cell of a notebook that was
  read may lack either attribute, or hold there a value that is not a string.
\<close>

datatype field = Missing | Text string | NonText

record cell =
  cell_type :: field
  source :: field

text \<open>
  What the subprocess did: it ran to its end (return code, captured standard output and
  standard error), \<^verbatim>\<open>subprocess.run\<close> raised \<^verbatim>\<open>TimeoutExpired\<close>, or it raised
  another exception, whose text is kept.
\<close>

datatype run_result = Completed int string string | TimeoutExpired | RunError string

text \<open>
  The world outside the script: reading the notebook at a path gives its cells or the
  text of the exception raised; \<^verbatim>\<open>sys.executable\<close>; and what
  \<^verbatim>\<open>subprocess.run\<close> does with a command line and a timeout in seconds.
\<close>

record env =
  nb_read :: "string \<Rightarrow> string + cell list"
  sys_executable :: string
  subprocess_run :: "string list \<Rightarrow> nat \<Rightarrow> run_result"

text \<open>
  The loop over \<^verbatim>\<open>nb.cells\<close>, with \<^verbatim>\<open>full_code\<close> as its accumulator. It stands
  between the two \<^verbatim>\<open>try\<close> blocks of the function, inside neither. Reading an
  attribute that the cell lacks raises \<^verbatim>\<open>AttributeError\<close>; a \<^verbatim>\<open>cell_type\<close> that
  is not a string is not equal to \<^verbatim>\<open>'code'\<close>; \<^verbatim>\<open>re.sub\<close> on a source that is
  not a string raises \<^verbatim>\<open>TypeError\<close>.
\<close>

fun collect_code :: "string \<Rightarrow> cell list \<Rightarrow> exn + string" where
  "collect_code full_code [] = Inr full_code"
| "collect_code full_code (c # cs) =
     (case cell_type c of
        Missing \<Rightarrow> Inl AttributeError
      | Text t \<Rightarrow>
          if t = ''code'' then
            (case source c of
               Missing \<Rightarrow> Inl AttributeError
             | Text s \<Rightarrow>
                 collect_code (full_code @ re_sub False placeholder_pattern ''1'' s @ [CHR 0x0A]) cs
             | NonText \<Rightarrow> Inl TypeError)
          else collect_code full_code cs
      | NonText \<Rightarrow> collect_code full_code cs)"

definition not_configured_message :: string where
  "not_configured_message =
     ''The GA parameters were not set. Please complete the configuration in the `run_moead_heatsink` function.''"

definition timeout_message :: string where
  "timeout_message = ''Code execution timed out after 4 minutes.''"

text \<open>
  The result is the pair the source returns, \<^verbatim>\<open>(output, error_message)\<close>, or the
  exception that the loop over the cells raised, together with the subprocesses started:
  each with its command line and its timeout.
\<close>

definition execute_notebook ::
  "env \<Rightarrow> string \<Rightarrow> (exn + string option \<times> string option) \<times> (string list \<times> nat) list" where
  "execute_notebook w notebook_path =
     (case nb_read w notebook_path of
        Inl e \<Rightarrow> (Inr (None, Some (''Error reading notebook file: '' @ e)), [])
      | Inr cells \<Rightarrow>
          (case collect_code [] cells of
             Inl raised \<Rightarrow> (Inl raised, [])
           | Inr full_code \<Rightarrow>
               if sublist ''n_subproblems = 1'' full_code
               then (Inr (None, Some not_configured_message), [])
               else
                 (let argv = [sys_executable w, ''-c'', full_code]
                  in (Inr (case subprocess_run w argv 240 of
                        Completed returncode out err \<Rightarrow>
                          if returncode \<noteq> 0
                          then (None, Some (''Code execution failed with an error:'' @ [CHR 0x0A] @ err))
                          else (Some out, None)
                      | TimeoutExpired \<Rightarrow> (None, Some timeout_message)
                      | RunError e \<Rightarrow>
                          (None, Some (''An unexpected error occurred during execution: '' @ e))),
                      [(argv, 240)]))))"

subsection \<open>\<^verbatim>\<open>grade_result\<close>\<close>

datatype pynum = PyInt int | PyFloat pyfloat

text \<open>
  An f-string is kept as its pieces: the literal text and the formatted values, each with
  its format (\<^verbatim>\<open>:.3f\<close>, \<^verbatim>\<open>:.2%\<close> or none).
\<close>

datatype piece = Txt string | Fixed3 pyfloat | Percent2 pyfloat | Plain pynum

definition OPTIMAL_F1 :: pyfloat where
  "OPTIMAL_F1 = rnd64 (5 / 1000)"

definition TOLERANCE :: pyfloat where
  "TOLERANCE = rnd64 (10 / 100)"

definition no_output_message :: string where
  "no_output_message = ''Could not get output from the notebook.''"

definition not_found_message :: string where
  "not_found_message =
     ''Could not find the 'Ideal point: z' in the output. Make sure the algorithm runs to completion.''"

definition not_parsed_message :: string where
  "not_parsed_message = ''Could not parse the ideal point values from the output.''"

text \<open>\<^verbatim>\<open>float(matches[-1][0])\<close>\<close>

definition student_value :: "string list list \<Rightarrow> exn + pyfloat" where
  "student_value matches =
     (case matches of
        [] \<Rightarrow> Inl IndexError
      | _ \<Rightarrow> (case last matches of [] \<Rightarrow> Inl IndexError | g # _ \<Rightarrow> py_float g))"

text \<open>Line 69: the relative error of the student's value.\<close>

definition relative_error :: "pyfloat \<Rightarrow> exn + pyfloat" where
  "relative_error student_f1 =
     (if OPTIMAL_F1 \<noteq> Fin 0 then fdiv (fabs (fsub student_f1 OPTIMAL_F1)) OPTIMAL_F1
      else Inr PInf)"

text \<open>Lines 71 to 79: the score of a relative error.\<close>

definition score_of_error :: "pyfloat \<Rightarrow> exn + pyfloat" where
  "score_of_error error =
     (if fle error TOLERANCE then Inr (round2 (Fin 10))
      else if flt error (Fin 1) then
        (case fdiv (fsub error TOLERANCE) (fsub (Fin 1) TOLERANCE) of
           Inl e \<Rightarrow> Inl e
         | Inr q \<Rightarrow> Inr (round2 (fmul (Fin 10) (fsub (Fin 1) q))))
      else Inr (round2 (Fin 0)))"

definition feedback_text :: "pyfloat \<Rightarrow> pyfloat \<Rightarrow> pyfloat \<Rightarrow> piece list" where
  "feedback_text student_f1 error score =
     [Txt (''Grading based on the final Thermal Resistance (f1) in the ideal point.'' @ [CHR 0x0A]),
      Txt ''Target f1: ~'', Fixed3 OPTIMAL_F1, Txt [CHR 0x0A],
      Txt ''Your Final f1: '', Fixed3 student_f1, Txt [CHR 0x0A],
      Txt ''Error: '', Percent2 error, Txt [CHR 0x0A],
      Txt ''Score: '', Plain (PyFloat score), Txt ''/10'']"

definition grade_result :: "string option \<Rightarrow> exn + (pynum \<times> piece list)" where
  "grade_result output =
     (case output of
        None \<Rightarrow> Inr (PyInt 0, [Txt no_output_message])
      | Some out \<Rightarrow>
          (let matches = re_findall True ideal_point_pattern out
           in if matches = [] then Inr (PyInt 0, [Txt not_found_message])
              else
                (case student_value matches of
                   Inl e \<Rightarrow>
                     if e = ValueError \<or> e = IndexError
                     then Inr (PyInt 0, [Txt not_parsed_message])
                     else Inl e
                 | Inr student_f1 \<Rightarrow>
                     (case relative_error student_f1 of
                        Inl e \<Rightarrow> Inl e
                      | Inr error \<Rightarrow>
                          (case score_of_error error of
                             Inl e \<Rightarrow> Inl e
                           | Inr score \<Rightarrow>
                               Inr (PyFloat score, feedback_text student_f1 error score))))))"

subsection \<open>\<^verbatim>\<open>main\<close>\<close>

datatype json =
    JStr "piece list"
  | JNum pynum
  | JList "json list"
  | JDict "(string \<times> json) list"

definition test_result :: "pynum \<Rightarrow> piece list \<Rightarrow> json" where
  "test_result score feedback =
     JDict [(''tests'',
       JList [JDict [(''name'', JStr [Txt ''Heat Sink Multi-Objective Optimization'']),
                     (''score'', JNum score),
                     (''max_score'', JNum (PyInt 10)),
                     (''output'', JStr feedback)]])]"

text \<open>
  \<open>main w\<close> is the dictionary handed to \<^verbatim>\<open>json.dumps\<close> and printed, or the exception
  that escapes (then nothing is printed), together with the subprocesses started.
  \<^verbatim>\<open>main\<close> has no \<^verbatim>\<open>try\<close> of its own: what \<^verbatim>\<open>execute_notebook\<close> or
  \<^verbatim>\<open>grade_result\<close> raises leaves it.
\<close>

definition notebook_path :: string where
  "notebook_path = ''L9_Pareto_CaseStudy_Homework.ipynb''"

definition main :: "env \<Rightarrow> (exn + json) \<times> (string list \<times> nat) list" where
  "main w =
     (let (returned, spawned) = execute_notebook w notebook_path
      in (case returned of
            Inl e \<Rightarrow> Inl e
          | Inr (output, error_message) \<Rightarrow>
              (let graded =
                 (case error_message of
                    Some m \<Rightarrow> if m \<noteq> [] then Inr (PyInt 0, [Txt m]) else grade_result output
                  | None \<Rightarrow> grade_result output)
               in (case graded of
                     Inl e \<Rightarrow> Inl e
                   | Inr (score, feedback) \<Rightarrow> Inr (test_result score feedback))),
          spawned))"

subsection \<open>Sample worlds\<close>

text \<open>
  A world whose notebook has the given cells and whose subprocess ends the given way,
  and a world whose notebook cannot be read.
\<close>

definition world :: "cell list \<Rightarrow> run_result \<Rightarrow> env" where
  "world cells res =
     \<lparr>nb_read = (\<lambda>p. Inr cells), sys_executable = ''python3'',
      subprocess_run = (\<lambda>argv t. res)\<rparr>"

definition unreadable_world :: "string \<Rightarrow> env" where
  "unreadable_world e =
     \<lparr>nb_read = (\<lambda>p. Inl e), sys_executable = ''python3'',
      subprocess_run = (\<lambda>argv t. TimeoutExpired)\<rparr>"

definition code_cell :: "string \<Rightarrow> cell" where
  "code_cell src = \<lparr>cell_type = Text ''code'', source = Text src\<rparr>"

text \<open>A notebook with a text cell and two code cells, one with a placeholder line.\<close>

definition sample_cells :: "cell list" where
  "sample_cells =
     [\<lparr>cell_type = Text ''markdown'', source = Text ''# Title''\<rparr>,
      code_cell (''x = 1'' @ [CHR 0x0A] @ ''  # YOUR CODE HERE (two lines)'' @ [CHR 0x0A] @ ''y = 2''),
      code_cell ''run()'']"

text \<open>
  Three cells that do not follow the notebook schema: a code cell without
  \<^verbatim>\<open>source\<close>, a code cell whose \<^verbatim>\<open>source\<close> is not a string, and a cell without
  \<^verbatim>\<open>cell_type\<close>.
\<close>

definition sourceless_cell :: cell where
  "sourceless_cell = \<lparr>cell_type = Text ''code'', source = Missing\<rparr>"

definition odd_source_cell :: cell where
  "odd_source_cell = \<lparr>cell_type = Text ''code'', source = NonText\<rparr>"

definition typeless_cell :: cell where
  "typeless_cell = \<lparr>cell_type = Missing, source = Text ''run()''\<rparr>"

subsection \<open>The placeholder substitution, line by line\<close>

text \<open>
  What the specification says of the substitution: the source of a cell is cut into lines
  at its newlines, a line that contains the sentinel becomes \<^verbatim>\<open>1\<close>, and the lines
  are joined again.
\<close>

definition sentinel :: string where
  "sentinel = ''# YOUR CODE HERE''"

fun split_lines :: "string \<Rightarrow> string list" where
  "split_lines [] = [[]]"
| "split_lines (c # s) =
     (if c = CHR 0x0A then [] # split_lines s
      else (case split_lines s of [] \<Rightarrow> [[c]] | l # ls \<Rightarrow> (c # l) # ls))"

fun join_lines :: "string list \<Rightarrow> string" where
  "join_lines [] = []"
| "join_lines [l] = l"
| "join_lines (l # l' # ls) = l @ CHR 0x0A # join_lines (l' # ls)"

definition replace_placeholder_lines :: "string \<Rightarrow> string" where
  "replace_placeholder_lines s =
     join_lines (map (\<lambda>l. if sublist sentinel l then ''1'' else l) (split_lines s))"

abbreviation notnl :: "char \<Rightarrow> bool" where
  "notnl \<equiv> (\<lambda>c. c \<noteq> CHR 0x0A)"

subsection \<open>Auxiliary notions\<close>

text \<open>
  The cells that the loop gets past: the cell has a \<^verbatim>\<open>cell_type\<close>, and if that is
  \<^verbatim>\<open>'code'\<close> its \<^verbatim>\<open>source\<close> is a string. Every cell of the notebook format, which
  has a type and a text, is one. \<open>source_text\<close> is the text of such a source.
\<close>

definition readable_cell :: "cell \<Rightarrow> bool" where
  "readable_cell c =
     (cell_type c \<noteq> Missing
      \<and> (cell_type c = Text ''code'' \<longrightarrow> (case source c of Text s \<Rightarrow> True | _ \<Rightarrow> False)))"

definition source_text :: "cell \<Rightarrow> string" where
  "source_text c = (case source c of Text s \<Rightarrow> s | _ \<Rightarrow> [])"

text \<open>What a group of the matcher holds: characters of its class, at least one under \<^verbatim>\<open>+\<close>.\<close>

definition chunk_ok :: "bool \<Rightarrow> item \<Rightarrow> string \<Rightarrow> bool" where
  "chunk_ok ic it g = ((\<forall>c\<in>set g. accepts ic (item_cls it) c) \<and> (item_quant it \<noteq> ZeroOrMore \<longrightarrow> g \<noteq> []))"

text \<open>
  The value of a rounding, where it is finite; the float values of \<^verbatim>\<open>TOLERANCE\<close>
  and of \<^verbatim>\<open>1.0 - TOLERANCE\<close>; and the score of the linear branch on the values.
\<close>

definition rv :: "rat \<Rightarrow> rat" where
  "rv x = (case rnd64 x of Fin r \<Rightarrow> r | _ \<Rightarrow> 0)"

definition tol_q :: rat where
  "tol_q = 3602879701896397 / 36028797018963968"

definition span_q :: rat where
  "span_q = 8106479329266893 / 9007199254740992"

definition linear_score :: "rat \<Rightarrow> rat" where
  "linear_score a =
     (let r = rv (a - tol_q); q = rv (r / span_q); u = rv (1 - q); m = rv (10 * u)
      in rv (of_int (round_half_even (m * 100)) / 100))"

section \<open>Properties of the library model\<close>

subsection \<open>Rounding to binary64\<close>

lemma powi_bitlen_le:
  assumes "0 < n"
  shows "(2::rat) powi (bitlen n - 1) \<le> of_int n"
proof -
  have b: "2 ^ nat (bitlen n - 1) \<le> n"
    using bitlen_bounds[OF assms] by auto
  have g: "1 \<le> bitlen n" using assms by (auto simp: bitlen_alt_def)
  have "(of_int (2 ^ nat (bitlen n - 1)) :: rat) \<le> of_int n"
    using b of_int_le_iff by blast
  then show ?thesis
    using g by (simp add: power_int_def)
qed

lemma ilog2_bounds:
  assumes "0 < x"
  shows "2 powi ilog2 x \<le> x \<and> x < 2 powi (ilog2 x + 1)"
proof (cases "1 \<le> x")
  case True
  define n where "n = \<lfloor>x\<rfloor>"
  have n: "0 < n" using True by (simp add: n_def)
  have e: "ilog2 x = bitlen n - 1" using True by (simp add: ilog2_def n_def)
  have "2 powi (bitlen n - 1) \<le> (of_int n :: rat)" using powi_bitlen_le[OF n] .
  also have "\<dots> \<le> x" by (simp add: n_def)
  finally have lo: "2 powi ilog2 x \<le> x" by (simp add: e)
  have "n < 2 ^ nat (bitlen n)" using bitlen_bounds[OF n] by simp
  then have "n + 1 \<le> 2 ^ nat (bitlen n)" by simp
  then have "(of_int (n + 1) :: rat) \<le> of_int (2 ^ nat (bitlen n))"
    using of_int_le_iff by blast
  moreover have "x < of_int (n + 1)" using floor_correct[of x] by (simp add: n_def)
  ultimately have "x < 2 ^ nat (bitlen n)" by simp
  moreover have "0 \<le> bitlen n" by (rule bitlen_nonneg)
  ultimately have "x < 2 powi (bitlen n)" by (simp add: power_int_def)
  then show ?thesis using lo by (simp add: e)
next
  case False
  define y where "y = 1 / x"
  define n where "n = \<lceil>y\<rceil>"
  have y1: "1 < y" using False assms by (simp add: y_def)
  have n2: "2 \<le> n" using y1 unfolding n_def by (simp add: le_ceiling_iff)
  have n1: "0 < n - 1" using n2 by simp
  define m where "m = bitlen (n - 1)"
  have e: "ilog2 x = - m" using False by (simp add: ilog2_def n_def y_def m_def)
  have m1: "1 \<le> m" using n1 by (auto simp: m_def bitlen_alt_def)
  have yn: "y \<le> of_int n" "of_int (n - 1) < y"
    unfolding n_def by (simp_all add: le_of_int_ceiling) linarith
  have "n - 1 < 2 ^ nat m" using bitlen_bounds[OF n1] by (simp add: m_def)
  then have "n \<le> 2 ^ nat m" by simp
  then have "(of_int n :: rat) \<le> of_int (2 ^ nat m)" using of_int_le_iff by blast
  then have "(of_int n :: rat) \<le> 2 ^ nat m" by simp
  then have "y \<le> 2 ^ nat m" using yn(1) by (rule order_trans[rotated])
  then have "y \<le> 2 powi m" using m1 by (simp add: power_int_def)
  then have "1 / (2 powi m) \<le> 1 / y"
    using y1 by (intro divide_left_mono) auto
  then have lo: "2 powi (- m) \<le> x" using assms by (simp add: y_def power_int_minus_divide)
  have "2 powi (m - 1) \<le> (of_int (n - 1) :: rat)"
    using powi_bitlen_le[OF n1] by (simp add: m_def)
  then have "2 powi (m - 1) < y" using yn(2) by simp
  then have "1 / y < 1 / (2 powi (m - 1))"
    by (intro divide_strict_left_mono) (auto intro: mult_pos_pos y1 less_trans[OF zero_less_one y1])
  then have "x < 1 / (2 powi (m - 1))" using assms by (simp add: y_def)
  then have "x < 2 powi (- (m - 1))" by (simp only: power_int_minus_divide)
  then show ?thesis using lo by (simp add: e)
qed

lemma powi2_less_imp: "(2::rat) powi a < 2 powi b \<Longrightarrow> a < b"
  by (metis less_irrefl linorder_not_less one_le_numeral order_less_le_trans power_int_increasing)

lemma ilog2_unique:
  assumes "0 < x" "2 powi e \<le> x" "x < 2 powi (e + 1)"
  shows "ilog2 x = e"
proof -
  have b: "2 powi ilog2 x \<le> x" "x < 2 powi (ilog2 x + 1)"
    using ilog2_bounds[OF assms(1)] by auto
  have "(2::rat) powi e < 2 powi (ilog2 x + 1)" using assms(2) b(2) by simp
  then have 1: "e < ilog2 x + 1" by (rule powi2_less_imp)
  have "(2::rat) powi ilog2 x < 2 powi (e + 1)" using assms(3) b(1) by simp
  then have 2: "ilog2 x < e + 1" by (rule powi2_less_imp)
  show ?thesis using 1 2 by simp
qed

lemma ilog2_mono:
  assumes "0 < a" "a \<le> b"
  shows "ilog2 a \<le> ilog2 b"
proof -
  have "2 powi ilog2 a \<le> a" using ilog2_bounds[OF assms(1)] by simp
  moreover have "b < 2 powi (ilog2 b + 1)" using ilog2_bounds[of b] assms by simp
  ultimately have "(2::rat) powi ilog2 a < 2 powi (ilog2 b + 1)" using assms(2) by simp
  then have "ilog2 a < ilog2 b + 1" by (rule powi2_less_imp)
  then show ?thesis by simp
qed

lemma rhe_bounds: "\<lfloor>x\<rfloor> \<le> round_half_even x \<and> round_half_even x \<le> \<lfloor>x\<rfloor> + 1"
  by (simp add: round_half_even_def Let_def)

lemma rhe_of_int: "round_half_even (of_int n) = n"
  by (simp add: round_half_even_def)

lemma rhe_mono:
  assumes "x \<le> y"
  shows "round_half_even x \<le> round_half_even y"
proof (cases "\<lfloor>x\<rfloor> = \<lfloor>y\<rfloor>")
  case True
  have "x - of_int \<lfloor>y\<rfloor> \<le> y - of_int \<lfloor>y\<rfloor>" using assms by simp
  then show ?thesis using True by (auto simp: round_half_even_def Let_def)
next
  case False
  then have "\<lfloor>x\<rfloor> < \<lfloor>y\<rfloor>" using floor_mono[OF assms] by simp
  then show ?thesis using rhe_bounds[of x] rhe_bounds[of y] by linarith
qed

lemma round_mag_nonneg:
  assumes "0 < a"
  shows "0 \<le> round_mag a"
proof -
  have "0 \<le> a / 2 powi quantum a" using assms by simp
  then have "round_half_even (of_int 0) \<le> round_half_even (a / 2 powi quantum a)"
    by (intro rhe_mono) simp
  then have "0 \<le> round_half_even (a / 2 powi quantum a)" by (simp only: rhe_of_int)
  then show ?thesis by (simp add: round_mag_def)
qed

lemma rhe_le_of_int: "x \<le> of_int n \<Longrightarrow> round_half_even x \<le> n"
  using rhe_mono[of x "of_int n"] by (simp add: rhe_of_int)

lemma rhe_ge_of_int: "of_int n \<le> x \<Longrightarrow> n \<le> round_half_even x"
  using rhe_mono[of "of_int n" x] by (simp add: rhe_of_int)

lemma powi2_nat: "0 \<le> k \<Longrightarrow> (2::rat) powi k = of_int (2 ^ nat k)"
  by (simp add: power_int_def)

lemma round_mag_mono:
  assumes "0 < a" "a \<le> b"
  shows "round_mag a \<le> round_mag b"
proof (cases "quantum a = quantum b")
  case True
  have "a / 2 powi quantum b \<le> b / 2 powi quantum b"
    using assms(2) by (simp add: divide_right_mono)
  then have "round_half_even (a / 2 powi quantum b) \<le> round_half_even (b / 2 powi quantum b)"
    by (rule rhe_mono)
  then have "(of_int (round_half_even (a / 2 powi quantum b)) :: rat)
      \<le> of_int (round_half_even (b / 2 powi quantum b))" by simp
  then show ?thesis
    unfolding round_mag_def True by (intro mult_right_mono) auto
next
  case False
  have b0: "0 < b" using assms by simp
  have le: "ilog2 a \<le> ilog2 b" using ilog2_mono[OF assms] .
  then have "quantum a \<le> quantum b" by (simp add: quantum_def)
  then have lt: "quantum a < quantum b" using False by simp
  have qb: "quantum b = ilog2 b - 52" using lt by (auto simp: quantum_def max_def split: if_splits)
  have qa: "ilog2 a - 52 \<le> quantum a" by (simp add: quantum_def)
  define P :: rat where "P = 2 powi ilog2 b"
  have P0: "0 < P" by (simp add: P_def)
  have ia: "ilog2 a + 1 \<le> ilog2 b" using lt qb qa by simp
  have "a < 2 powi (ilog2 a + 1)" using ilog2_bounds[OF assms(1)] by simp
  also have "\<dots> \<le> P" unfolding P_def using ia by (intro power_int_increasing) auto
  finally have aP: "a \<le> P" by simp
  have Pb: "P \<le> b" unfolding P_def using ilog2_bounds[OF b0] by simp
  \<comment> \<open>the power of two between them is a fixed point on both sides\<close>
  have "P / 2 powi quantum b = 2 powi (ilog2 b - quantum b)"
    unfolding P_def by (simp add: power_int_diff)
  also have "\<dots> = of_int (2 ^ 52)" by (simp add: qb)
  finally have Pq: "P / 2 powi quantum b = of_int (2 ^ 52)" .
  have "of_int (2 ^ 52) \<le> b / 2 powi quantum b"
    unfolding Pq[symmetric] using Pb by (simp add: divide_right_mono)
  then have "2 ^ 52 \<le> round_half_even (b / 2 powi quantum b)" by (rule rhe_ge_of_int)
  then have "(of_int (2 ^ 52) :: rat) \<le> of_int (round_half_even (b / 2 powi quantum b))"
    using of_int_le_iff by blast
  then have "of_int (2 ^ 52) * 2 powi quantum b \<le> round_mag b"
    unfolding round_mag_def by (intro mult_right_mono) auto
  moreover have "of_int (2 ^ 52) * 2 powi quantum b = P"
    using Pq by (simp add: field_simps)
  ultimately have hi: "P \<le> round_mag b" by simp
  define k where "k = ilog2 b - quantum a"
  have k0: "0 \<le> k" using lt qb by (simp add: k_def)
  have "P / 2 powi quantum a = 2 powi k"
    unfolding P_def k_def by (simp add: power_int_diff)
  also have "\<dots> = of_int (2 ^ nat k)" using k0 by (rule powi2_nat)
  finally have Pa: "P / 2 powi quantum a = of_int (2 ^ nat k)" .
  have "a / 2 powi quantum a \<le> of_int (2 ^ nat k)"
    unfolding Pa[symmetric] using aP by (simp add: divide_right_mono)
  then have "round_half_even (a / 2 powi quantum a) \<le> 2 ^ nat k" by (rule rhe_le_of_int)
  then have "(of_int (round_half_even (a / 2 powi quantum a)) :: rat) \<le> of_int (2 ^ nat k)"
    using of_int_le_iff by blast
  then have "round_mag a \<le> of_int (2 ^ nat k) * 2 powi quantum a"
    unfolding round_mag_def by (intro mult_right_mono) auto
  moreover have "of_int (2 ^ nat k) * 2 powi quantum a = P"
    using Pa by (simp add: field_simps)
  ultimately have "round_mag a \<le> P" by simp
  then show ?thesis using hi by simp
qed

lemma rnd64_mono:
  assumes "x \<le> y"
  shows "fle (rnd64 x) (rnd64 y)"
proof -
  consider "x = 0" | "0 < x" | "x < 0" by linarith
  then show ?thesis
  proof cases
    case 1
    then show ?thesis using assms round_mag_nonneg[of "\<bar>y\<bar>"]
      by (auto simp: rnd64_def Let_def)
  next
    case 2
    then have "round_mag \<bar>x\<bar> \<le> round_mag \<bar>y\<bar>" using assms round_mag_mono[of x y] by simp
    then show ?thesis using 2 assms by (auto simp: rnd64_def Let_def)
  next
    case 3
    show ?thesis
    proof (cases "y < 0")
      case True
      then have "round_mag \<bar>y\<bar> \<le> round_mag \<bar>x\<bar>" using assms round_mag_mono[of "-y" "-x"] by simp
      then show ?thesis using 3 True by (auto simp: rnd64_def Let_def)
    next
      case False
      then show ?thesis using 3 round_mag_nonneg[of "\<bar>x\<bar>"] round_mag_nonneg[of "\<bar>y\<bar>"]
        by (auto simp: rnd64_def Let_def)
    qed
  qed
qed

lemma round_mag_eval:
  assumes "0 < a" "2 powi e \<le> a" "a < 2 powi (e + 1)" "- 1022 \<le> e"
  shows "round_mag a = of_int (round_half_even (a / 2 powi (e - 52))) * 2 powi (e - 52)"
proof -
  have "ilog2 a = e" using ilog2_unique[OF assms(1-3)] .
  then have "quantum a = e - 52" using assms(4) by (simp add: quantum_def)
  then show ?thesis by (simp add: round_mag_def)
qed

lemma rnd64_eval:
  assumes "0 < a" "2 powi e \<le> a" "a < 2 powi (e + 1)" "- 1022 \<le> e" "e \<le> 1022"
  shows "rnd64 a = Fin (of_int (round_half_even (a / 2 powi (e - 52))) * 2 powi (e - 52))"
proof -
  have rm: "round_mag a = of_int (round_half_even (a / 2 powi (e - 52))) * 2 powi (e - 52)"
    using round_mag_eval[OF assms(1-4)] .
  have e1: "53 + (e - 52) = e + 1" by simp
  have "(2::rat) powi (53 + (e - 52)) = 2 powi 53 * 2 powi (e - 52)"
    by (rule power_int_add) simp
  then have pp: "2 powi 53 * 2 powi (e - 52) = (2::rat) powi (e + 1)"
    unfolding e1 by (rule sym)
  have c53: "(of_int (2 ^ 53) :: rat) = 2 powi 53" by simp
  have "a / 2 powi (e - 52) \<le> 2 powi (e + 1) / 2 powi (e - 52)"
    using assms(3) by (simp add: divide_right_mono)
  also have "\<dots> = 2 powi 53" by (simp add: power_int_diff[symmetric])
  also have "\<dots> = of_int (2 ^ 53)" by simp
  finally have "round_half_even (a / 2 powi (e - 52)) \<le> 2 ^ 53" by (rule rhe_le_of_int)
  then have "(of_int (round_half_even (a / 2 powi (e - 52))) :: rat) \<le> of_int (2 ^ 53)"
    using of_int_le_iff by blast
  then have "round_mag a \<le> of_int (2 ^ 53) * 2 powi (e - 52)"
    unfolding rm by (intro mult_right_mono) auto
  also have "\<dots> = 2 powi (e + 1)" unfolding c53 by (rule pp)
  also have "\<dots> \<le> 2 powi 1023"
    using assms(5) by (intro power_int_increasing) auto
  also have "\<dots> = 2 ^ 1023" by (rule power_int_numeral)
  also have "\<dots> < 2 ^ 1024" by (rule power_strict_increasing) auto
  finally have "\<not> 2 ^ 1024 \<le> round_mag a" by simp
  then show ?thesis using assms(1) rm by (simp add: rnd64_def Let_def)
qed

lemma rhe_frac:
  assumes "0 < b"
  shows "round_half_even (of_int a / of_int b) =
     (let q = a div b; r = a mod b
      in if 2 * r < b then q else if b < 2 * r then q + 1 else if even q then q else q + 1)"
proof -
  have f: "\<lfloor>(of_int a / of_int b :: rat)\<rfloor> = a div b"
    by (simp add: floor_divide_of_int_eq)
  have "(of_int a :: rat) = of_int (a div b * b + a mod b)" by simp
  also have "\<dots> = of_int (a div b) * of_int b + of_int (a mod b)" by (simp only: of_int_add of_int_mult)
  finally have "(of_int a / of_int b :: rat) = of_int (a div b) + of_int (a mod b) / of_int b"
    using assms by (simp add: field_simps)
  then have d: "(of_int a / of_int b :: rat) - of_int (a div b) = of_int (a mod b) / of_int b"
    by simp
  have lt: "(of_int (a mod b) / of_int b < (1 / 2 :: rat)) = (2 * (a mod b) < b)"
    using assms by (simp add: field_simps) (metis of_int_less_iff of_int_mult of_int_numeral mult.commute)
  have gt: "((1 / 2 :: rat) < of_int (a mod b) / of_int b) = (b < 2 * (a mod b))"
    using assms by (simp add: field_simps) (metis of_int_less_iff of_int_mult of_int_numeral mult.commute)
  show ?thesis
    unfolding round_half_even_def f d Let_def lt gt by simp
qed

lemma rhe_numeral:
  "round_half_even (numeral a / numeral b) =
     (let q = numeral a div numeral b; r = numeral a mod (numeral b :: int)
      in if 2 * r < numeral b then q else if numeral b < 2 * r then q + 1
         else if even q then q else q + 1)"
  using rhe_frac[of "numeral b" "numeral a"] by simp

lemma tol_val: "rnd64 (10 / 100) = Fin (3602879701896397 / 36028797018963968)"
  using rnd64_eval[of "10 / 100" "- 4"] by (simp add: rhe_numeral Let_def)

subsection \<open>The matcher\<close>

declare rmatch.simps(2) [simp del]

lemma first_ok_Some: "first_ok f ks = Some r \<Longrightarrow> \<exists>k\<in>set ks. f k = Some r"
  by (induction ks) (auto split: option.splits)

lemma first_ok_None: "first_ok f ks = None \<longleftrightarrow> (\<forall>k\<in>set ks. f k = None)"
  by (induction ks) (auto split: option.splits)

lemma first_ok_const:
  "(\<forall>k\<in>set ks. f k = None \<or> f k = Some v) \<Longrightarrow>
   first_ok f ks = (if \<exists>k\<in>set ks. f k \<noteq> None then Some v else None)"
  by (induction ks) (auto split: option.splits)

lemma counts_bound:
  assumes "k \<in> set (counts ic it s)"
  shows "k \<le> length (takeWhile (accepts ic (item_cls it)) s)"
    and "item_quant it \<noteq> ZeroOrMore \<Longrightarrow> 1 \<le> k"
  using assms by (auto simp: counts_def Let_def split: quant.splits if_splits)

lemma take_run_accepted:
  assumes "k \<le> length (takeWhile P s)"
  shows "\<forall>c\<in>set (take k s). P c"
proof -
  have "take k s = take k (takeWhile P s)"
    using assms by (metis append_eq_conv_conj takeWhile_dropWhile_id take_all_iff take_take min.absorb1 take_append diff_is_0_eq' take_0 append_Nil2 length_take)
  then show ?thesis by (metis in_set_takeD set_takeWhileD)
qed

lemma rmatch_groups:
  "rmatch ic p s = Some (gs, r) \<Longrightarrow> list_all2 (chunk_ok ic) (filter is_group p) gs"
proof (induction p arbitrary: s gs r)
  case Nil
  then show ?case by simp
next
  case (Cons it p)
  from Cons.prems obtain k where k: "k \<in> set (counts ic it s)"
    and m: "(case rmatch ic p (drop k s) of None \<Rightarrow> None
             | Some (gs', r') \<Rightarrow> Some (if is_group it then take k s # gs' else gs', r')) = Some (gs, r)"
    by (auto simp: rmatch.simps(2) dest!: first_ok_Some)
  from m obtain gs' where r: "rmatch ic p (drop k s) = Some (gs', r)"
    and gs: "gs = (if is_group it then take k s # gs' else gs')"
    by (auto split: option.splits)
  have ih: "list_all2 (chunk_ok ic) (filter is_group p) gs'" using Cons.IH[OF r] .
  show ?case
  proof (cases "is_group it")
    case True
    have a: "\<forall>c\<in>set (take k s). accepts ic (item_cls it) c"
      using counts_bound(1)[OF k] by (rule take_run_accepted)
    have "item_quant it \<noteq> ZeroOrMore \<Longrightarrow> take k s \<noteq> []"
    proof -
      assume "item_quant it \<noteq> ZeroOrMore"
      then have "1 \<le> k" using counts_bound(2)[OF k] by simp
      moreover have "k \<le> length s"
        using counts_bound(1)[OF k] length_takeWhile_le[of "accepts ic (item_cls it)" s] by simp
      ultimately show "take k s \<noteq> []" by auto
    qed
    then have "chunk_ok ic it (take k s)" using a by (simp add: chunk_ok_def)
    then show ?thesis using True ih gs by simp
  next
    case False
    then show ?thesis using ih gs by simp
  qed
qed

lemma findall_scan_sound:
  "gs \<in> set (findall_scan ic p k s) \<Longrightarrow> \<exists>t r. rmatch ic p t = Some (gs, r)"
proof (induction ic p k s rule: findall_scan.induct)
  case (1 ic p k)
  have k: "k = 0" using 1 by (cases "k = 0") simp_all
  show ?case
  proof (cases "rmatch ic p []")
    case None
    then show ?thesis using 1 k by simp
  next
    case (Some a)
    then show ?thesis using 1 k by (cases a) auto
  qed
next
  case (2 ic p k x s)
  then show ?case by simp
next
  case (3 ic p x s)
  show ?case
  proof (cases "rmatch ic p (x # s)")
    case None
    then show ?thesis using 3 by simp
  next
    case (Some a)
    obtain gs' r' where a: "a = (gs', r')" by (cases a)
    show ?thesis
    proof (cases "gs = gs'")
      case True
      then show ?thesis using Some a by blast
    next
      case False
      then have "gs \<in> set (findall_scan ic p (length (x # s) - length r' - 1) s)"
        using "3.prems" Some a by simp
      then show ?thesis using "3.IH"(2)[OF Some a[symmetric]] by simp
    qed
  qed
qed

lemma ideal_groups: "filter is_group ideal_point_pattern = [Grp OneOrMore DigitDot, Grp OneOrMore DigitDot]"
  by (simp add: ideal_point_pattern_def)

lemma findall_ideal_shape:
  assumes "gs \<in> set (re_findall True ideal_point_pattern out)"
  shows "\<exists>g1 g2. gs = [g1, g2] \<and> g1 \<noteq> [] \<and> g2 \<noteq> []
           \<and> (\<forall>c\<in>set g1. is_digit c \<or> c = CHR ''.'') \<and> (\<forall>c\<in>set g2. is_digit c \<or> c = CHR ''.'')"
proof -
  obtain t r where "rmatch True ideal_point_pattern t = Some (gs, r)"
    using assms findall_scan_sound unfolding re_findall_def by blast
  then have "list_all2 (chunk_ok True) [Grp OneOrMore DigitDot, Grp OneOrMore DigitDot] gs"
    using rmatch_groups ideal_groups by metis
  then show ?thesis
    by (auto simp: list_all2_Cons1 chunk_ok_def)
qed

lemma rmatch_once:
  "rmatch ic (Tok Once k # p) s =
     (case s of [] \<Rightarrow> None | c # s' \<Rightarrow> if accepts ic k c then rmatch ic p s' else None)"
  by (cases s) (auto simp: rmatch.simps(2) counts_def split: option.splits)

lemma rmatch_lits:
  "rmatch ic (map (\<lambda>c. Tok Once (Lit c)) lit @ p) s =
     (if length lit \<le> length s \<and> list_all2 (\<lambda>a c. accepts ic (Lit a) c) lit (take (length lit) s)
      then rmatch ic p (drop (length lit) s) else None)"
proof (induction lit arbitrary: s)
  case Nil
  then show ?case by simp
next
  case (Cons a lit)
  show ?case
  proof (cases s)
    case Nil
    then show ?thesis by (simp add: rmatch_once)
  next
    case (Cons c s')
    then show ?thesis using Cons.IH[of s'] by (simp add: rmatch_once)
  qed
qed

lemma rmatch_star_last:
  "rmatch ic [Tok ZeroOrMore k] s = Some ([], dropWhile (accepts ic k) s)"
  by (simp add: rmatch.simps(2) counts_def dropWhile_eq_drop Let_def)

lemma of_char_lower_range:
  "65 \<le> (of_char c :: nat) \<and> (of_char c :: nat) \<le> 90 \<Longrightarrow> (of_char (lower c) :: nat) = of_char c + 32"
  by (simp add: lower_def)

lemma lower_eq_comma: "lower c = CHR '','' \<longleftrightarrow> c = CHR '',''"
proof
  assume h: "lower c = CHR '',''"
  show "c = CHR '',''"
  proof (cases "65 \<le> (of_char c :: nat) \<and> (of_char c :: nat) \<le> 90")
    case True
    then have "(of_char (lower c) :: nat) = of_char c + 32" by (rule of_char_lower_range)
    then have "(of_char c :: nat) + 32 = 44" using h by simp
    then show ?thesis using True by simp
  next
    case False
    then show ?thesis using h by (auto simp: lower_def split: if_splits)
  qed
next
  assume "c = CHR '',''"
  then show "lower c = CHR '',''" by (simp add: lower_def)
qed

lemma digit_not_comma: "is_digit c \<or> c = CHR ''.'' \<Longrightarrow> c \<noteq> CHR '',''"
  by (auto simp: is_digit_def)

lemma list_all2_lower:
  "list_all2 (\<lambda>a c. accepts True (Lit a) c) lit m \<longleftrightarrow> map lower m = map lower lit"
  by (induction lit arbitrary: m) (auto simp: list_all2_Cons1)

lemma takeWhile_run:
  assumes "\<forall>c\<in>set d. P c" "\<not> P x"
  shows "takeWhile P (d @ x # rest) = d"
  using assms by (simp add: takeWhile_append2)

lemma rmatch_number_stops:
  assumes d: "\<forall>c\<in>set d. is_digit c \<or> c = CHR ''.''"
    and x: "\<not> (is_digit x \<or> x = CHR ''.'')" "x \<noteq> CHR '',''"
  shows "rmatch True (Grp OneOrMore DigitDot # Tok Once (Lit CHR '','') # p) (d @ x # rest) = None"
proof -
  have run: "takeWhile (accepts True DigitDot) (d @ x # rest) = d"
    using d x(1) by (intro takeWhile_run) auto
  have "rmatch True (Tok Once (Lit CHR '','') # p) (drop k (d @ x # rest)) = None"
    if "k \<le> length d" for k
  proof (cases "k < length d")
    case True
    then obtain c t where dk: "drop k d = c # t" by (metis Cons_nth_drop_Suc)
    then have "c \<in> set d" by (metis in_set_dropD list.set_intros(1))
    then have "c \<noteq> CHR '',''" using d digit_not_comma by blast
    then have "\<not> accepts True (Lit CHR '','') c" using lower_eq_comma[of c] by (simp add: lower_def)
    moreover have "drop k (d @ x # rest) = c # (t @ x # rest)" using True dk by simp
    ultimately show ?thesis by (simp add: rmatch_once)
  next
    case False
    then have "drop k (d @ x # rest) = x # rest" using that by simp
    moreover have "\<not> accepts True (Lit CHR '','') x" using lower_eq_comma[of x] x(2) by (simp add: lower_def)
    ultimately show ?thesis by (simp add: rmatch_once)
  qed
  then have "\<forall>k\<in>set (counts True (Grp OneOrMore DigitDot) (d @ x # rest)).
      rmatch True (Tok Once (Lit CHR '','') # p) (drop k (d @ x # rest)) = None"
    using counts_bound(1)[of _ True "Grp OneOrMore DigitDot" "d @ x # rest"] run by auto
  then show ?thesis
    by (subst rmatch.simps) (simp add: first_ok_None)
qed

lemma rmatch_ideal_bad_number:
  assumes "map lower m = map lower ''Ideal point: z = [''"
    and "\<forall>c\<in>set d. is_digit c \<or> c = CHR ''.''"
    and "\<not> (is_digit x \<or> x = CHR ''.'')" "x \<noteq> CHR '',''"
  shows "rmatch True ideal_point_pattern (m @ d @ x # rest) = None"
proof -
  have len: "length m = 18" using arg_cong[OF assms(1), of length] by simp
  have "rmatch True ideal_point_pattern (m @ d @ x # rest)
      = rmatch True [Grp OneOrMore DigitDot, Tok Once (Lit CHR '',''), Tok ZeroOrMore Space,
          Grp OneOrMore DigitDot, Tok Once (Lit CHR '']'')] (d @ x # rest)"
    unfolding ideal_point_pattern_def rmatch_lits
    using len assms(1) by (simp add: list_all2_lower)
  also have "\<dots> = None" by (rule rmatch_number_stops[OF assms(2-4)])
  finally show ?thesis .
qed

lemma list_all2_lit_eq:
  "list_all2 (\<lambda>a c. accepts False (Lit a) c) lit m \<longleftrightarrow> m = lit"
  by (induction lit arbitrary: m) (auto simp: list_all2_Cons1)

lemma prefix_take_iff: "length xs \<le> length t \<and> take (length xs) t = xs \<longleftrightarrow> prefix xs t"
  by (metis append_eq_conv_conj prefix_def prefix_length_le)

lemma rmatch_tail:
  "rmatch False (map (\<lambda>c. Tok Once (Lit c)) sentinel @ [Tok ZeroOrMore AnyChar]) t =
     (if prefix sentinel t then Some ([], dropWhile notnl (drop (length sentinel) t)) else None)"
proof -
  have a: "accepts False AnyChar = notnl" by (rule ext) simp
  show ?thesis
    unfolding rmatch_lits rmatch_star_last list_all2_lit_eq prefix_take_iff a by simp
qed

lemma prefix_before_break:
  assumes "prefix xs (a @ b)" "b = [] \<or> hd b \<notin> set xs"
  shows "prefix xs a"
proof -
  from assms(1) have "prefix xs a \<or> (\<exists>us. xs = a @ us \<and> prefix us b)"
    by (simp add: prefix_append)
  then show ?thesis
  proof (elim disjE exE conjE)
    assume "prefix xs a"
    then show ?thesis .
  next
    fix us assume xs: "xs = a @ us" and p: "prefix us b"
    show ?thesis
    proof (cases us)
      case Nil
      then show ?thesis using xs by simp
    next
      case (Cons u us')
      then have "b \<noteq> []" "hd b = u" using p by (auto simp: prefix_def)
      then have "u \<notin> set xs" using assms(2) by auto
      then show ?thesis using xs Cons by simp
    qed
  qed
qed

lemma sentinel_no_newline: "CHR 0x0A \<notin> set sentinel"
  by (simp add: sentinel_def)

lemma line_break: "dropWhile notnl s = [] \<or> hd (dropWhile notnl s) \<notin> set sentinel"
proof (cases "dropWhile notnl s")
  case Nil
  then show ?thesis by simp
next
  case (Cons c r)
  then have "c = CHR 0x0A" using hd_dropWhile[of notnl s] by force
  then show ?thesis using Cons sentinel_no_newline by simp
qed

lemma rmatch_placeholder:
  "rmatch False placeholder_pattern s =
     (if sublist sentinel (takeWhile notnl s) then Some ([], dropWhile notnl s) else None)"
proof -
  define l where "l = takeWhile notnl s"
  define r where "r = dropWhile notnl s"
  define tailp where "tailp = map (\<lambda>c. Tok Once (Lit c)) sentinel @ [Tok ZeroOrMore AnyChar]"
  have s: "s = l @ r" by (simp add: l_def r_def)
  have lnl: "\<forall>c\<in>set l. notnl c" unfolding l_def by (auto dest: set_takeWhileD)
  have rb: "r = [] \<or> hd r \<notin> set sentinel" unfolding r_def by (rule line_break)
  have rr: "dropWhile notnl r = r" unfolding r_def by (rule dropWhile_idem)
  have pat: "placeholder_pattern = Tok ZeroOrMore AnyChar # tailp"
    by (simp add: placeholder_pattern_def tailp_def sentinel_def)
  have a: "accepts False AnyChar = notnl" by (rule ext) simp
  have cnt: "set (counts False (Tok ZeroOrMore AnyChar) s) = {k. k \<le> length l}"
    by (auto simp: counts_def l_def Let_def a)
  define f where "f = (\<lambda>k. case rmatch False tailp (drop k s) of
               None \<Rightarrow> None
             | Some (gs, r') \<Rightarrow> Some (if is_group (Tok ZeroOrMore AnyChar) then take k s # gs else gs, r'))"
  have fk: "f k = (if prefix sentinel (drop k l) then Some ([], r) else None)" if k: "k \<le> length l" for k
  proof (cases "prefix sentinel (drop k s)")
    case True
    have dk: "drop k s = drop k l @ r" using k by (simp add: s)
    have p: "prefix sentinel (drop k l)"
      using True rb unfolding dk by (rule prefix_before_break)
    then obtain t where t: "drop k l = sentinel @ t" by (auto simp: prefix_def)
    have "set t \<subseteq> set l" using t by (metis set_drop_subset set_append le_sup_iff)
    then have tn: "\<forall>c\<in>set t. notnl c" using lnl by blast
    have "drop (length sentinel) (drop k s) = t @ r" unfolding dk t by simp
    then have "dropWhile notnl (drop (length sentinel) (drop k s)) = r"
      using tn rr by (simp add: dropWhile_append2)
    then show ?thesis using True p by (simp add: f_def tailp_def rmatch_tail)
  next
    case False
    have dk: "drop k s = drop k l @ r" using k by (simp add: s)
    have "\<not> prefix sentinel (drop k l)" using False unfolding dk by (auto simp: prefix_append)
    then show ?thesis using False by (simp add: f_def tailp_def rmatch_tail)
  qed
  have ex: "(\<exists>k\<le>length l. prefix sentinel (drop k l)) \<longleftrightarrow> sublist sentinel l"
  proof
    assume "\<exists>k\<le>length l. prefix sentinel (drop k l)"
    then obtain k t where "drop k l = sentinel @ t" by (auto simp: prefix_def)
    then have "l = take k l @ sentinel @ t" by (metis append_take_drop_id)
    then show "sublist sentinel l" unfolding sublist_def by blast
  next
    assume "sublist sentinel l"
    then obtain ps ss where l: "l = ps @ sentinel @ ss" unfolding sublist_def by blast
    then have "drop (length ps) l = sentinel @ ss" by simp
    moreover have "length ps \<le> length l" using l by simp
    ultimately show "\<exists>k\<le>length l. prefix sentinel (drop k l)" by (metis prefixI)
  qed
  have "rmatch False placeholder_pattern s = first_ok f (counts False (Tok ZeroOrMore AnyChar) s)"
    unfolding pat f_def by (simp add: rmatch.simps(2))
  also have "\<dots> = (if \<exists>k\<in>set (counts False (Tok ZeroOrMore AnyChar) s). f k \<noteq> None
                    then Some ([], r) else None)"
    by (rule first_ok_const) (auto simp: cnt fk)
  also have "(\<exists>k\<in>set (counts False (Tok ZeroOrMore AnyChar) s). f k \<noteq> None)
      \<longleftrightarrow> (\<exists>k\<le>length l. prefix sentinel (drop k l))"
    unfolding cnt using fk by auto
  finally have "rmatch False placeholder_pattern s =
      (if \<exists>k\<le>length l. prefix sentinel (drop k l) then Some ([], r) else None)" .
  then have "rmatch False placeholder_pattern s =
      (if sublist sentinel l then Some ([], r) else None)" by (simp only: ex)
  then show ?thesis unfolding l_def r_def .
qed

lemma sub_scan_skip:
  "k \<le> length s \<Longrightarrow> sub_scan ic p repl k s = sub_scan ic p repl 0 (drop k s)"
proof (induction s arbitrary: k)
  case Nil
  then show ?case by simp
next
  case (Cons x s)
  then show ?case by (cases k) simp_all
qed

lemma rmatch_placeholder_Nil: "rmatch False placeholder_pattern [] = None"
  by (simp add: rmatch_placeholder sentinel_def)

lemma sub_scan_plain_line:
  "\<not> sublist sentinel (takeWhile notnl s) \<Longrightarrow>
   sub_scan False placeholder_pattern ''1'' 0 s =
     takeWhile notnl s @ sub_scan False placeholder_pattern ''1'' 0 (dropWhile notnl s)"
proof (induction s)
  case Nil
  then show ?case by simp
next
  case (Cons x s)
  show ?case
  proof (cases "x = CHR 0x0A")
    case True
    then show ?thesis by simp
  next
    case False
    then have tw: "takeWhile notnl (x # s) = x # takeWhile notnl s" by simp
    have "\<not> sublist sentinel (takeWhile notnl s)"
      using Cons.prems unfolding tw by (auto simp: sublist_Cons_right)
    then have ih: "sub_scan False placeholder_pattern ''1'' 0 s =
        takeWhile notnl s @ sub_scan False placeholder_pattern ''1'' 0 (dropWhile notnl s)"
      by (rule Cons.IH)
    have "rmatch False placeholder_pattern (x # s) = None"
      using Cons.prems by (simp only: rmatch_placeholder if_False)
    then show ?thesis using False ih by simp
  qed
qed

lemma sub_scan_marked_line:
  assumes "sublist sentinel (takeWhile notnl s)"
  shows "sub_scan False placeholder_pattern ''1'' 0 s =
     ''1'' @ sub_scan False placeholder_pattern ''1'' 0 (dropWhile notnl s)"
proof -
  obtain x s' where s: "s = x # s'" using assms by (cases s) (auto simp: sentinel_def)
  have x: "x \<noteq> CHR 0x0A" using assms unfolding s by (auto simp: sentinel_def split: if_splits)
  define r where "r = dropWhile notnl s"
  define n where "n = length s - length r"
  have m: "rmatch False placeholder_pattern (x # s') = Some ([], r)"
    using assms unfolding s[symmetric] r_def by (simp only: rmatch_placeholder if_True)
  have ln: "n = length (takeWhile notnl s)"
    unfolding n_def r_def by (metis add_diff_cancel_right' length_append takeWhile_dropWhile_id)
  have n0: "n \<noteq> 0" unfolding ln s using x by simp
  have dr: "drop n s = r" unfolding ln r_def by (simp add: dropWhile_eq_drop)
  have le: "n - 1 \<le> length s'" unfolding n_def s by simp
  have "drop (n - 1) s' = drop n s" using n0 unfolding s by (cases n) simp_all
  then have d: "drop (n - 1) s' = r" using dr by simp
  have "sub_scan False placeholder_pattern ''1'' 0 (x # s')
      = ''1'' @ sub_scan False placeholder_pattern ''1'' (n - 1) s'"
    using m n0 unfolding n_def s by (simp add: Let_def)
  also have "sub_scan False placeholder_pattern ''1'' (n - 1) s'
      = sub_scan False placeholder_pattern ''1'' 0 r"
    using sub_scan_skip[OF le] d by simp
  finally show ?thesis unfolding s r_def .
qed

lemma sub_scan_newline:
  "sub_scan False placeholder_pattern ''1'' 0 (CHR 0x0A # s) =
     CHR 0x0A # sub_scan False placeholder_pattern ''1'' 0 s"
proof -
  have "rmatch False placeholder_pattern (CHR 0x0A # s) = None"
    by (simp add: rmatch_placeholder sentinel_def)
  then show ?thesis by simp
qed

lemma split_lines_nonempty: "split_lines s \<noteq> []"
  by (induction s) (auto split: list.splits)

lemma split_lines_first:
  "split_lines s =
     takeWhile notnl s # (case dropWhile notnl s of [] \<Rightarrow> [] | c # r \<Rightarrow> split_lines r)"
proof (induction s)
  case Nil
  then show ?case by simp
next
  case (Cons x s)
  then show ?case by (cases "x = CHR 0x0A") simp_all
qed

lemma join_lines_Cons:
  "ls \<noteq> [] \<Longrightarrow> join_lines (l # ls) = l @ CHR 0x0A # join_lines ls"
  by (cases ls) simp_all

lemma re_sub_placeholder_lines:
  "re_sub False placeholder_pattern ''1'' s = replace_placeholder_lines s"
proof (induction "length s" arbitrary: s rule: less_induct)
  case less
  define l where "l = takeWhile notnl s"
  define r where "r = dropWhile notnl s"
  define f where "f = (\<lambda>l. if sublist sentinel l then ''1'' else l)"
  have step: "sub_scan False placeholder_pattern ''1'' 0 s
      = f l @ sub_scan False placeholder_pattern ''1'' 0 r"
    using sub_scan_plain_line[of s] sub_scan_marked_line[of s]
    unfolding l_def r_def f_def by (cases "sublist sentinel (takeWhile notnl s)") simp_all
  show ?case
  proof (cases r)
    case Nil
    have "split_lines s = [l]" using split_lines_first[of s] Nil unfolding l_def r_def by simp
    then have "replace_placeholder_lines s = f l"
      by (simp add: replace_placeholder_lines_def f_def)
    moreover have "sub_scan False placeholder_pattern ''1'' 0 r = []"
      unfolding Nil using rmatch_placeholder_Nil by simp
    ultimately show ?thesis using step by (simp add: re_sub_def)
  next
    case (Cons c r')
    have c: "c = CHR 0x0A" using hd_dropWhile[of notnl s] Cons unfolding r_def by force
    have "length r \<le> length s" unfolding r_def by (rule length_dropWhile_le)
    then have "length r' < length s" using Cons by simp
    then have ih: "re_sub False placeholder_pattern ''1'' r' = replace_placeholder_lines r'"
      by (rule less.hyps)
    have sp: "split_lines s = l # split_lines r'"
      using split_lines_first[of s] Cons unfolding l_def r_def by simp
    have "replace_placeholder_lines s = f l @ CHR 0x0A # replace_placeholder_lines r'"
      unfolding replace_placeholder_lines_def sp
      using split_lines_nonempty[of r'] by (simp add: join_lines_Cons f_def)
    moreover have "sub_scan False placeholder_pattern ''1'' 0 r
        = CHR 0x0A # sub_scan False placeholder_pattern ''1'' 0 r'"
      unfolding Cons c by (rule sub_scan_newline)
    ultimately show ?thesis using step ih by (simp add: re_sub_def)
  qed
qed

lemma collect_code_concat:
  "\<forall>c\<in>set cells. readable_cell c \<Longrightarrow>
   collect_code acc cells =
     Inr (acc @ concat (map (\<lambda>c. re_sub False placeholder_pattern ''1'' (source_text c) @ [CHR 0x0A])
                         (filter (\<lambda>c. cell_type c = Text ''code'') cells)))"
proof (induction cells arbitrary: acc)
  case Nil
  then show ?case by simp
next
  case (Cons c cs)
  then have rc: "readable_cell c" and rcs: "\<forall>c\<in>set cs. readable_cell c" by simp_all
  show ?case
  proof (cases "cell_type c = Text ''code''")
    case True
    then obtain s where s: "source c = Text s"
      using rc by (cases "source c") (simp_all add: readable_cell_def)
    show ?thesis using True s Cons.IH[OF rcs] by (simp add: source_text_def)
  next
    case False
    then show ?thesis using rc Cons.IH[OF rcs]
      by (cases "cell_type c") (simp_all add: readable_cell_def)
  qed
qed

lemma collect_code_raises:
  "\<not> (\<forall>c\<in>set cells. readable_cell c) \<Longrightarrow> \<exists>e. collect_code acc cells = Inl e"
proof (induction cells arbitrary: acc)
  case Nil
  then show ?case by simp
next
  case (Cons c cs)
  show ?case
  proof (cases "readable_cell c")
    case True
    then have "\<not> (\<forall>c\<in>set cs. readable_cell c)" using Cons.prems by simp
    then have ih: "\<exists>e. collect_code acc' cs = Inl e" for acc' by (rule Cons.IH)
    show ?thesis
    proof (cases "cell_type c = Text ''code''")
      case code: True
      then obtain s where s: "source c = Text s"
        using True by (cases "source c") (simp_all add: readable_cell_def)
      show ?thesis using code s ih by simp
    next
      case False
      then show ?thesis using True ih
        by (cases "cell_type c") (simp_all add: readable_cell_def)
    qed
  next
    case False
    show ?thesis
    proof (cases "cell_type c")
      case Missing
      then show ?thesis by simp
    next
      case (Text t)
      then have t: "t = ''code''" using False by (auto simp: readable_cell_def)
      show ?thesis using False Text t
        by (cases "source c") (simp_all add: readable_cell_def)
    next
      case NonText
      then show ?thesis using False by (simp add: readable_cell_def)
    qed
  qed
qed

lemma collect_code_returns_iff:
  "(\<exists>full_code. collect_code acc cells = Inr full_code) \<longleftrightarrow> (\<forall>c\<in>set cells. readable_cell c)"
proof
  assume a: "\<exists>full_code. collect_code acc cells = Inr full_code"
  show "\<forall>c\<in>set cells. readable_cell c"
  proof (rule ccontr)
    assume "\<not> (\<forall>c\<in>set cells. readable_cell c)"
    then obtain e where "collect_code acc cells = Inl e"
      using collect_code_raises[of cells acc] by blast
    then show False using a by simp
  qed
next
  assume "\<forall>c\<in>set cells. readable_cell c"
  then show "\<exists>full_code. collect_code acc cells = Inr full_code"
    using collect_code_concat[of cells acc] by simp
qed

section \<open>Properties of the script\<close>

subsection \<open>The constants of the grader, and totality\<close>

lemma rnd64_not_NaN: "rnd64 x \<noteq> NaN"
  by (simp add: rnd64_def Let_def)

lemma rnd64_nonneg:
  assumes "0 \<le> x"
  shows "rnd64 x = PInf \<or> (\<exists>r. rnd64 x = Fin r \<and> 0 \<le> r)"
proof (cases "x = 0")
  case True
  then show ?thesis by (simp add: rnd64_def)
next
  case False
  then have "0 < x" using assms by simp
  then show ?thesis using round_mag_nonneg[of x] by (auto simp: rnd64_def Let_def)
qed

lemma rnd64_minus:
  "rnd64 (- x) = (case rnd64 x of Fin r \<Rightarrow> Fin (- r) | PInf \<Rightarrow> NInf | NInf \<Rightarrow> PInf | NaN \<Rightarrow> NaN)"
  by (auto simp: rnd64_def Let_def)

lemma opt_val: "OPTIMAL_F1 = Fin (5764607523034235 / 1152921504606846976)"
  unfolding OPTIMAL_F1_def using rnd64_eval[of "5 / 1000" "- 8"] by (simp add: rhe_numeral Let_def)

lemma tolerance_val: "TOLERANCE = Fin (3602879701896397 / 36028797018963968)"
  unfolding TOLERANCE_def by (rule tol_val)

lemma ninety_val: "rnd64 (90 / 100) = Fin (8106479329266893 / 9007199254740992)"
  using rnd64_eval[of "90 / 100" "- 1"] by (simp add: rhe_numeral Let_def)

lemma one_minus_tolerance: "fsub (Fin 1) TOLERANCE = rnd64 (90 / 100)"
  unfolding tolerance_val ninety_val
  using rnd64_eval[of "1 - 3602879701896397 / 36028797018963968" "- 1"]
  by (simp add: rhe_numeral Let_def)

lemma round2_ten: "round2 (Fin 10) = Fin 10"
  using rnd64_eval[of "10" "3"] by (simp add: rhe_numeral rhe_of_int Let_def round_half_even_def)

lemma round2_zero: "round2 (Fin 0) = Fin 0"
  by (simp add: round_half_even_def rnd64_def)

lemma relative_error_eq:
  "relative_error v = fdiv (fabs (fsub v OPTIMAL_F1)) OPTIMAL_F1"
  by (simp add: relative_error_def opt_val)

lemma fdiv_total: "b \<noteq> 0 \<Longrightarrow> \<exists>q. fdiv x (Fin b) = Inr q"
  by (cases x) simp_all

lemma relative_error_total: "\<exists>e. relative_error v = Inr e"
  unfolding relative_error_eq opt_val by (rule fdiv_total) simp

lemma score_of_error_total: "\<exists>s. score_of_error e = Inr s"
proof -
  obtain q where "fdiv (fsub e TOLERANCE) (fsub (Fin 1) TOLERANCE) = Inr q"
    unfolding one_minus_tolerance ninety_val using fdiv_total[of "8106479329266893 / 9007199254740992"] by auto
  then show ?thesis by (simp add: score_of_error_def)
qed

subsection \<open>The branches of the pipeline\<close>

lemma main_error:
  "execute_notebook w notebook_path = (Inr (out, Some m), sp) \<Longrightarrow> m \<noteq> [] \<Longrightarrow>
   main w = (Inr (test_result (PyInt 0) [Txt m]), sp)"
  by (simp add: main_def)

lemma main_graded:
  "execute_notebook w notebook_path = (Inr (out, None), sp) \<Longrightarrow> grade_result out = Inr (s, f) \<Longrightarrow>
   main w = (Inr (test_result s f), sp)"
  by (simp add: main_def)

lemma main_raised:
  "execute_notebook w notebook_path = (Inl e, sp) \<Longrightarrow> main w = (Inl e, sp)"
  by (simp add: main_def)

lemma exec_unreadable:
  "nb_read w p = Inl e \<Longrightarrow>
   execute_notebook w p = (Inr (None, Some (''Error reading notebook file: '' @ e)), [])"
  by (simp add: execute_notebook_def)

lemma exec_raised:
  "nb_read w p = Inr cells \<Longrightarrow> collect_code [] cells = Inl e \<Longrightarrow>
   execute_notebook w p = (Inl e, [])"
  by (simp add: execute_notebook_def)

lemma exec_gate:
  "nb_read w p = Inr cells \<Longrightarrow> collect_code [] cells = Inr full_code \<Longrightarrow>
   sublist ''n_subproblems = 1'' full_code \<Longrightarrow>
   execute_notebook w p = (Inr (None, Some not_configured_message), [])"
  by (simp add: execute_notebook_def)

lemma exec_run:
  "nb_read w p = Inr cells \<Longrightarrow> collect_code [] cells = Inr full_code \<Longrightarrow>
   \<not> sublist ''n_subproblems = 1'' full_code \<Longrightarrow>
   execute_notebook w p =
     (Inr (case subprocess_run w [sys_executable w, ''-c'', full_code] 240 of
        Completed returncode out err \<Rightarrow>
          if returncode \<noteq> 0
          then (None, Some (''Code execution failed with an error:'' @ [CHR 0x0A] @ err))
          else (Some out, None)
      | TimeoutExpired \<Rightarrow> (None, Some timeout_message)
      | RunError e \<Rightarrow> (None, Some (''An unexpected error occurred during execution: '' @ e))),
      [([sys_executable w, ''-c'', full_code], 240)])"
  by (simp add: execute_notebook_def Let_def)

lemma spawned_at_most_once: "length (snd (execute_notebook w p)) \<le> 1"
  by (simp add: execute_notebook_def Let_def split: sum.splits)

lemma py_float_error: "py_float g = Inl e \<Longrightarrow> e = ValueError"
  by (auto simp: py_float_def Let_def split: list.splits if_splits)

lemma student_value_error: "student_value ms = Inl e \<Longrightarrow> e = ValueError \<or> e = IndexError"
  by (auto simp: student_value_def split: list.splits dest: py_float_error)

lemma grade_not_found:
  "re_findall True ideal_point_pattern out = [] \<Longrightarrow>
   grade_result (Some out) = Inr (PyInt 0, [Txt not_found_message])"
  by (simp add: grade_result_def)

lemma grade_not_parsed:
  "re_findall True ideal_point_pattern out \<noteq> [] \<Longrightarrow>
   student_value (re_findall True ideal_point_pattern out) = Inl e \<Longrightarrow>
   grade_result (Some out) = Inr (PyInt 0, [Txt not_parsed_message])"
  using student_value_error[of "re_findall True ideal_point_pattern out" e]
  by (auto simp: grade_result_def)

lemma grade_scored:
  "re_findall True ideal_point_pattern out \<noteq> [] \<Longrightarrow>
   student_value (re_findall True ideal_point_pattern out) = Inr v \<Longrightarrow>
   relative_error v = Inr e \<Longrightarrow> score_of_error e = Inr s \<Longrightarrow>
   grade_result (Some out) = Inr (PyFloat s, feedback_text v e s)"
  by (simp add: grade_result_def)

lemma grade_result_total: "\<exists>s f. grade_result r = Inr (s, f)"
proof (cases r)
  case None
  then show ?thesis by (simp add: grade_result_def)
next
  case (Some out)
  show ?thesis
  proof (cases "re_findall True ideal_point_pattern out = []")
    case True
    then show ?thesis using Some grade_not_found by blast
  next
    case False
    show ?thesis
    proof (cases "student_value (re_findall True ideal_point_pattern out)")
      case (Inl e)
      then show ?thesis using Some False grade_not_parsed by blast
    next
      case (Inr v)
      obtain e where e: "relative_error v = Inr e" using relative_error_total by blast
      obtain s where "score_of_error e = Inr s" using score_of_error_total by blast
      then show ?thesis using Some False Inr e grade_scored by blast
    qed
  qed
qed

lemma main_reports:
  assumes "fst (execute_notebook w notebook_path) = Inr returned"
  shows "\<exists>score feedback. fst (main w) = Inr (test_result score feedback)"
proof -
  obtain out err where r: "returned = (out, err)" by (cases returned)
  obtain sp where ex: "execute_notebook w notebook_path = (Inr (out, err), sp)"
    using assms r by (cases "execute_notebook w notebook_path") simp
  obtain s f where g: "grade_result out = Inr (s, f)" using grade_result_total by blast
  show ?thesis
  proof (cases err)
    case None
    then show ?thesis using main_graded[of w out sp s f] ex g by auto
  next
    case (Some m)
    show ?thesis
    proof (cases "m = []")
      case True
      then have "main w = (Inr (test_result s f), sp)" using ex Some g by (simp add: main_def)
      then show ?thesis by auto
    next
      case False
      then show ?thesis using main_error[of w out m sp] ex Some by auto
    qed
  qed
qed

subsection \<open>Sample runs\<close>

lemma world_simps:
  "nb_read (world cells res) p = Inr cells"
  "sys_executable (world cells res) = ''python3''"
  "subprocess_run (world cells res) argv t = res"
  "nb_read (unreadable_world e) p = Inl e"
  by (simp_all add: world_def unreadable_world_def)

lemma ev_collect_gate:
  "collect_code [] [code_cell ''n_subproblems = 1''] = Inr (''n_subproblems = 1'' @ [CHR 0x0A])"
  by code_simp

lemma ev_collect_run:
  "collect_code [] [code_cell ''run()''] = Inr (''run()'' @ [CHR 0x0A])"
  by code_simp

lemma ev_collect_malformed:
  "collect_code [] [sourceless_cell] = Inl AttributeError"
  "collect_code [] [odd_source_cell] = Inl TypeError"
  "collect_code [] [code_cell ''x = 1'', typeless_cell] = Inl AttributeError"
  by (simp_all add: sourceless_cell_def odd_source_cell_def typeless_cell_def code_cell_def)

lemma ev_gate_hit: "sublist ''n_subproblems = 1'' (''n_subproblems = 1'' @ [CHR 0x0A])"
  unfolding sublist_def by (intro exI[of _ "[]"] exI[of _ "[CHR 0x0A]"]) simp

lemma ev_gate_miss: "\<not> sublist ''n_subproblems = 1'' (''run()'' @ [CHR 0x0A])"
  by code_simp


lemma ev_findall_none: "re_findall True ideal_point_pattern ''done'' = []"
  by code_simp

lemma ev_findall_unparsable:
  "re_findall True ideal_point_pattern ''Ideal point: z = [1.2.3, 4]'' = [[''1.2.3'', ''4'']]"
  by code_simp

lemma ev_float_unparsable: "py_float ''1.2.3'' = Inl ValueError"
  by code_simp

lemma ev_findall_earlier:
  "re_findall True ideal_point_pattern
     (''Ideal point: z = [0.005, 0.1]'' @ [CHR 0x0A] @ ''Ideal point: z = [5e-3, 0.2]'')
   = [[''0.005'', ''0.1'']]"
  by code_simp

lemma ev_findall_negative:
  "re_findall True ideal_point_pattern ''Ideal point: z = [-0.005, 0.1]'' = []"
  by code_simp

lemma ev_findall_scientific:
  "re_findall True ideal_point_pattern ''Ideal point: z = [5e-3, 0.2]'' = []"
  by code_simp

lemma ev_sample_readable: "\<forall>c\<in>set sample_cells. readable_cell c"
  by (simp add: sample_cells_def code_cell_def readable_cell_def)

lemma ev_sample_lines:
  "concat (map (\<lambda>c. replace_placeholder_lines (source_text c) @ [CHR 0x0A])
             (filter (\<lambda>c. cell_type c = Text ''code'') sample_cells))
   = ''x = 1'' @ [CHR 0x0A] @ ''1'' @ [CHR 0x0A] @ ''y = 2'' @ [CHR 0x0A] @ ''run()'' @ [CHR 0x0A]"
  by code_simp

lemma ev_sample_gate:
  "\<not> sublist ''n_subproblems = 1''
      (''x = 1'' @ [CHR 0x0A] @ ''1'' @ [CHR 0x0A] @ ''y = 2'' @ [CHR 0x0A] @ ''run()'' @ [CHR 0x0A])"
  by code_simp

lemma student_value_unparsable: "student_value [[''1.2.3'', ''4'']] = Inl ValueError"
  by (simp add: student_value_def ev_float_unparsable)

lemma fst_main_error:
  "fst (execute_notebook w notebook_path) = Inr (out, Some m) \<Longrightarrow> m \<noteq> [] \<Longrightarrow>
   fst (main w) = Inr (test_result (PyInt 0) [Txt m])"
  using main_error[of w out m "snd (execute_notebook w notebook_path)"]
  by (cases "execute_notebook w notebook_path") simp

lemma fst_main_graded:
  "fst (execute_notebook w notebook_path) = Inr (out, None) \<Longrightarrow> grade_result out = Inr (s, f) \<Longrightarrow>
   fst (main w) = Inr (test_result s f)"
  using main_graded[of w out "snd (execute_notebook w notebook_path)" s f]
  by (cases "execute_notebook w notebook_path") simp

subsection \<open>The linear branch of the score\<close>

lemma fle_between: "fle (Fin l) x \<Longrightarrow> fle x (Fin h) \<Longrightarrow> \<exists>r. x = Fin r \<and> l \<le> r \<and> r \<le> h"
  by (cases x) simp_all

lemma rnd64_between:
  assumes "lo \<le> x" "x \<le> hi" "rnd64 lo = Fin l" "rnd64 hi = Fin h"
  shows "\<exists>r. rnd64 x = Fin r \<and> l \<le> r \<and> r \<le> h"
proof -
  have "fle (Fin l) (rnd64 x)" using rnd64_mono[OF assms(1)] assms(3) by simp
  moreover have "fle (rnd64 x) (Fin h)" using rnd64_mono[OF assms(2)] assms(4) by simp
  ultimately show ?thesis by (rule fle_between)
qed

lemma rnd64_zero: "rnd64 0 = Fin 0"
  by (simp add: rnd64_def)

lemma rnd64_one: "rnd64 1 = Fin 1"
  using rnd64_eval[of 1 0] by (simp add: round_half_even_def)

lemma rnd64_ten: "rnd64 10 = Fin 10"
  using rnd64_eval[of 10 3] by (simp add: round_half_even_def)

lemma rnd64_1024: "rnd64 1024 = Fin 1024"
  using rnd64_eval[of 1024 10] by (simp add: round_half_even_def)

lemma rnd64_m1024: "rnd64 (- 1024) = Fin (- 1024)"
  by (simp add: rnd64_minus rnd64_1024)

lemma rnd64_small:
  assumes "\<bar>x\<bar> \<le> 1024"
  shows "rnd64 x = Fin (rv x) \<and> \<bar>rv x\<bar> \<le> 1024"
proof -
  have "- 1024 \<le> x" "x \<le> 1024" using assms by auto
  then obtain r where "rnd64 x = Fin r" "- 1024 \<le> r" "r \<le> 1024"
    using rnd64_between[OF _ _ rnd64_m1024 rnd64_1024] by blast
  then show ?thesis by (simp add: rv_def)
qed

lemma rv_mono:
  assumes "x \<le> y" "\<bar>x\<bar> \<le> 1024" "\<bar>y\<bar> \<le> 1024"
  shows "rv x \<le> rv y"
  using rnd64_mono[OF assms(1)] rnd64_small[OF assms(2)] rnd64_small[OF assms(3)] by simp

lemma rv_zero: "rv 0 = 0" and rv_one: "rv 1 = 1" and rv_ten: "rv 10 = 10"
  by (simp_all add: rv_def rnd64_zero rnd64_one rnd64_ten)

lemma tolerance_q: "TOLERANCE = Fin tol_q"
  by (simp add: tolerance_val tol_q_def)

lemma span_val: "fsub (Fin 1) TOLERANCE = Fin span_q"
  by (simp only: one_minus_tolerance ninety_val span_q_def)

lemma rnd64_span: "rnd64 (1 - tol_q) = Fin span_q"
  using span_val by (simp add: tolerance_q)

lemma rv_span: "rv (1 - tol_q) = span_q"
  by (simp add: rnd64_span rv_def)

lemma rv_range:
  assumes "lo \<le> x" "x \<le> hi" "\<bar>lo\<bar> \<le> 1024" "\<bar>hi\<bar> \<le> 1024"
  shows "rv lo \<le> rv x \<and> rv x \<le> rv hi"
proof -
  have "\<bar>x\<bar> \<le> 1024" using assms by linarith
  then show ?thesis using rv_mono[OF assms(1)] rv_mono[OF assms(2)] assms(3,4) by simp
qed

lemma chain_bounds:
  assumes "tol_q \<le> a" "a \<le> 1"
  shows "0 \<le> rv (a - tol_q) \<and> rv (a - tol_q) \<le> span_q"
    and "0 \<le> rv (rv (a - tol_q) / span_q) \<and> rv (rv (a - tol_q) / span_q) \<le> 1"
    and "0 \<le> rv (1 - rv (rv (a - tol_q) / span_q)) \<and> rv (1 - rv (rv (a - tol_q) / span_q)) \<le> 1"
    and "0 \<le> rv (10 * rv (1 - rv (rv (a - tol_q) / span_q)))
         \<and> rv (10 * rv (1 - rv (rv (a - tol_q) / span_q))) \<le> 10"
proof -
  have t: "\<bar>1 - tol_q\<bar> \<le> 1024" by (simp add: tol_q_def)
  show r: "0 \<le> rv (a - tol_q) \<and> rv (a - tol_q) \<le> span_q"
    using rv_range[of 0 "a - tol_q" "1 - tol_q"] assms t by (simp add: rv_zero rv_span)
  have sp: "0 < span_q" by (simp add: span_q_def)
  have "0 \<le> rv (a - tol_q) / span_q" "rv (a - tol_q) / span_q \<le> 1"
    using r sp by simp_all
  then show q: "0 \<le> rv (rv (a - tol_q) / span_q) \<and> rv (rv (a - tol_q) / span_q) \<le> 1"
    using rv_range[of 0 "rv (a - tol_q) / span_q" 1] by (simp add: rv_zero rv_one)
  then show u: "0 \<le> rv (1 - rv (rv (a - tol_q) / span_q)) \<and> rv (1 - rv (rv (a - tol_q) / span_q)) \<le> 1"
    using rv_range[of 0 "1 - rv (rv (a - tol_q) / span_q)" 1] by (simp add: rv_zero rv_one)
  then show "0 \<le> rv (10 * rv (1 - rv (rv (a - tol_q) / span_q)))
         \<and> rv (10 * rv (1 - rv (rv (a - tol_q) / span_q))) \<le> 10"
    using rv_range[of 0 "10 * rv (1 - rv (rv (a - tol_q) / span_q))" 10] by (simp add: rv_zero rv_ten)
qed

lemma hundredths_range:
  assumes "0 \<le> m" "m \<le> 10"
  shows "0 \<le> (of_int (round_half_even (m * 100)) / 100 :: rat)
       \<and> (of_int (round_half_even (m * 100)) / 100 :: rat) \<le> 10"
proof -
  have lo: "(of_int 0 :: rat) \<le> m * 100" and hi: "m * 100 \<le> of_int 1000"
    using assms by simp_all
  have "0 \<le> round_half_even (m * 100)" using lo by (rule rhe_ge_of_int)
  then have 1: "(0::rat) \<le> of_int (round_half_even (m * 100))" by simp
  have "round_half_even (m * 100) \<le> 1000" using hi by (rule rhe_le_of_int)
  then have "(of_int (round_half_even (m * 100)) :: rat) \<le> of_int 1000"
    using of_int_le_iff by blast
  then have 2: "(of_int (round_half_even (m * 100)) :: rat) \<le> 1000" by simp
  show ?thesis using 1 2 by simp
qed

lemma linear_score_bounds:
  assumes "tol_q \<le> a" "a \<le> 1"
  shows "0 \<le> linear_score a \<and> linear_score a \<le> 10"
proof -
  define m where "m = rv (10 * rv (1 - rv (rv (a - tol_q) / span_q)))"
  have m: "0 \<le> m \<and> m \<le> 10" unfolding m_def by (rule chain_bounds(4)[OF assms])
  have h: "0 \<le> (of_int (round_half_even (m * 100)) / 100 :: rat)
       \<and> (of_int (round_half_even (m * 100)) / 100 :: rat) \<le> 10"
    using m by (intro hundredths_range) simp_all
  have "linear_score a = rv (of_int (round_half_even (m * 100)) / 100)"
    by (simp add: linear_score_def Let_def m_def)
  then show ?thesis
    using rv_range[of 0 "of_int (round_half_even (m * 100)) / 100" 10] h
    by (simp add: rv_zero rv_ten)
qed

lemma linear_score_antimono:
  assumes "tol_q \<le> a" "a \<le> b" "b \<le> 1"
  shows "linear_score b \<le> linear_score a"
proof -
  have a1: "a \<le> 1" and tb: "tol_q \<le> b" using assms by simp_all
  note ba = chain_bounds[OF assms(1) a1]
  note bb = chain_bounds[OF tb assms(3)]
  have sp: "0 < span_q" "span_q \<le> 1" by (simp_all add: span_q_def)
  define ra where "ra = rv (a - tol_q)"
  define rb where "rb = rv (b - tol_q)"
  define qa where "qa = rv (ra / span_q)"
  define qb where "qb = rv (rb / span_q)"
  define ua where "ua = rv (1 - qa)"
  define ub where "ub = rv (1 - qb)"
  define ma where "ma = rv (10 * ua)"
  define mb where "mb = rv (10 * ub)"
  have bra: "0 \<le> ra \<and> ra \<le> span_q" and brb: "0 \<le> rb \<and> rb \<le> span_q"
    using ba(1) bb(1) by (simp_all add: ra_def rb_def)
  have bqa: "0 \<le> qa \<and> qa \<le> 1" and bqb: "0 \<le> qb \<and> qb \<le> 1"
    using ba(2) bb(2) by (simp_all add: qa_def qb_def ra_def rb_def)
  have bua: "0 \<le> ua \<and> ua \<le> 1" and bub: "0 \<le> ub \<and> ub \<le> 1"
    using ba(3) bb(3) by (simp_all add: ua_def ub_def qa_def qb_def ra_def rb_def)
  have bma: "0 \<le> ma \<and> ma \<le> 10" and bmb: "0 \<le> mb \<and> mb \<le> 10"
    using ba(4) bb(4) by (simp_all add: ma_def mb_def ua_def ub_def qa_def qb_def ra_def rb_def)
  have tq: "0 \<le> tol_q" "tol_q \<le> 1" by (simp_all add: tol_q_def)
  have r: "ra \<le> rb" unfolding ra_def rb_def
    using assms tq by (intro rv_mono) auto
  have "ra / span_q \<le> rb / span_q" using r sp by (simp add: divide_right_mono)
  moreover have "0 \<le> ra / span_q" "ra / span_q \<le> 1" "0 \<le> rb / span_q" "rb / span_q \<le> 1"
    using bra brb sp by simp_all
  ultimately have q: "qa \<le> qb" unfolding qa_def qb_def by (intro rv_mono) auto
  have u: "ub \<le> ua" unfolding ua_def ub_def using q bqa bqb by (intro rv_mono) auto
  have m: "mb \<le> ma" unfolding ma_def mb_def using u bua bub by (intro rv_mono) auto
  have "round_half_even (mb * 100) \<le> round_half_even (ma * 100)"
    using m by (intro rhe_mono) simp
  then have "(of_int (round_half_even (mb * 100)) :: rat) \<le> of_int (round_half_even (ma * 100))"
    by simp
  then have h: "(of_int (round_half_even (mb * 100)) / 100 :: rat)
      \<le> of_int (round_half_even (ma * 100)) / 100" by simp
  have ha: "0 \<le> (of_int (round_half_even (ma * 100)) / 100 :: rat)
       \<and> (of_int (round_half_even (ma * 100)) / 100 :: rat) \<le> 10"
    using bma by (intro hundredths_range) simp_all
  have hb: "0 \<le> (of_int (round_half_even (mb * 100)) / 100 :: rat)
       \<and> (of_int (round_half_even (mb * 100)) / 100 :: rat) \<le> 10"
    using bmb by (intro hundredths_range) simp_all
  have "rv (of_int (round_half_even (mb * 100)) / 100) \<le> rv (of_int (round_half_even (ma * 100)) / 100)"
    using h ha hb by (intro rv_mono) auto
  then show ?thesis
    by (simp add: linear_score_def Let_def ma_def mb_def ua_def ub_def qa_def qb_def ra_def rb_def)
qed

lemma score_of_error_mid:
  assumes "tol_q < a" "a < 1"
  shows "score_of_error (Fin a) = Inr (Fin (linear_score a))"
proof -
  have a: "tol_q \<le> a" "a \<le> 1" using assms by simp_all
  note b = chain_bounds[OF a]
  have sp: "span_q \<noteq> 0" by (simp add: span_q_def)
  have tq: "0 \<le> tol_q" "tol_q \<le> 1" by (simp_all add: tol_q_def)
  define r where "r = rv (a - tol_q)"
  define q where "q = rv (r / span_q)"
  define u where "u = rv (1 - q)"
  define m where "m = rv (10 * u)"
  have br: "0 \<le> r \<and> r \<le> span_q" using b(1) by (simp add: r_def)
  have bq: "0 \<le> q \<and> q \<le> 1" using b(2) by (simp add: q_def r_def)
  have bu: "0 \<le> u \<and> u \<le> 1" using b(3) by (simp add: u_def q_def r_def)
  have bm: "0 \<le> m \<and> m \<le> 10" using b(4) by (simp add: m_def u_def q_def r_def)
  have sp1: "0 < span_q" "span_q \<le> 1" by (simp_all add: span_q_def)
  have 1: "rnd64 (a - tol_q) = Fin r" unfolding r_def
    using rnd64_small[of "a - tol_q"] a tq by (auto simp: abs_le_iff)
  have "0 \<le> r / span_q" "r / span_q \<le> 1" using br sp1 by simp_all
  then have 2: "rnd64 (r / span_q) = Fin q" unfolding q_def
    using rnd64_small[of "r / span_q"] by (auto simp: abs_le_iff)
  have 3: "rnd64 (1 - q) = Fin u" unfolding u_def
    using rnd64_small[of "1 - q"] bq by (auto simp: abs_le_iff)
  have 4: "rnd64 (10 * u) = Fin m" unfolding m_def
    using rnd64_small[of "10 * u"] bu by (auto simp: abs_le_iff)
  have h: "0 \<le> (of_int (round_half_even (m * 100)) / 100 :: rat)
       \<and> (of_int (round_half_even (m * 100)) / 100 :: rat) \<le> 10"
    using bm by (intro hundredths_range) simp_all
  have 5: "rnd64 (of_int (round_half_even (m * 100)) / 100) = Fin (linear_score a)"
    using rnd64_small[of "of_int (round_half_even (m * 100)) / 100"] h
    by (auto simp: abs_le_iff linear_score_def Let_def m_def u_def q_def r_def)
  show ?thesis
    unfolding score_of_error_def tolerance_q
    using assms sp by (simp add: rnd64_span 1 2 3 4 5)
qed

subsection \<open>Sample values\<close>

lemma rhe_num: "round_half_even (numeral n) = numeral n"
  using rhe_of_int[of "numeral n"] by simp

lemma sb_v: "rnd64 (11 / 2000) = Fin (3170534137668829 / 576460752303423488)"
  using rnd64_eval[of "11 / 2000" "- 8"] by (simp add: rhe_numeral rhe_num Let_def)

lemma sb_diff: "rnd64 (576460752303423 / 1152921504606846976) = Fin (576460752303423 / 1152921504606846976)"
  using rnd64_eval[of "576460752303423 / 1152921504606846976" "- 11"] by (simp add: rhe_numeral rhe_num Let_def)

lemma sb_err: "rnd64 (576460752303423 / 5764607523034235) = Fin (7205759403792787 / 72057594037927936)"
  using rnd64_eval[of "576460752303423 / 5764607523034235" "- 4"] by (simp add: rhe_numeral rhe_num Let_def)

lemma sb_rel: "relative_error (Fin (3170534137668829 / 576460752303423488)) = Inr (Fin (7205759403792787 / 72057594037927936))"
  by (simp add: relative_error_eq opt_val sb_diff sb_err)

lemma sd_v: "rnd64 (3 / 400) = Fin (1080863910568919 / 144115188075855872)"
  using rnd64_eval[of "3 / 400" "- 8"] by (simp add: rhe_numeral rhe_num Let_def)

lemma sd_diff: "rnd64 (2882303761517117 / 1152921504606846976) = Fin (2882303761517117 / 1152921504606846976)"
  using rnd64_eval[of "2882303761517117 / 1152921504606846976" "- 9"] by (simp add: rhe_numeral rhe_num Let_def)

lemma sd_err: "rnd64 (2882303761517117 / 5764607523034235) = Fin (4503599627370495 / 9007199254740992)"
  using rnd64_eval[of "2882303761517117 / 5764607523034235" "- 2"] by (simp add: rhe_numeral rhe_num Let_def)

lemma sd_rel: "relative_error (Fin (1080863910568919 / 144115188075855872)) = Inr (Fin (4503599627370495 / 9007199254740992))"
  by (simp add: relative_error_eq opt_val sd_diff sd_err)

lemma sd_r: "rnd64 (14411518807585583 / 36028797018963968) = Fin (900719925474099 / 2251799813685248)"
  using rnd64_eval[of "14411518807585583 / 36028797018963968" "- 2"] by (simp add: rhe_numeral rhe_num Let_def)

lemma sd_q: "rnd64 (3602879701896396 / 8106479329266893) = Fin (4003199668773773 / 9007199254740992)"
  using rnd64_eval[of "3602879701896396 / 8106479329266893" "- 2"] by (simp add: rhe_numeral rhe_num Let_def)

lemma sd_u: "rnd64 (5003999585967219 / 9007199254740992) = Fin (5003999585967219 / 9007199254740992)"
  using rnd64_eval[of "5003999585967219 / 9007199254740992" "- 1"] by (simp add: rhe_numeral rhe_num Let_def)

lemma sd_m: "rnd64 (25019997929836095 / 4503599627370496) = Fin (390937467653689 / 70368744177664)"
  using rnd64_eval[of "25019997929836095 / 4503599627370496" "2"] by (simp add: rhe_numeral rhe_num Let_def)

lemma sd_s: "rnd64 (139 / 25) = Fin (6260003482044989 / 1125899906842624)"
  using rnd64_eval[of "139 / 25" "2"] by (simp add: rhe_numeral rhe_num Let_def)

lemma sd_lin: "linear_score (4503599627370495 / 9007199254740992) = 6260003482044989 / 1125899906842624"
  by (simp add: linear_score_def Let_def rv_def tol_q_def span_q_def
        sd_r sd_q sd_u sd_m sd_s rhe_numeral rhe_num)

lemma se_v: "rnd64 (75001 / 10000000) = Fin (8647026576701813 / 1152921504606846976)"
  using rnd64_eval[of "75001 / 10000000" "- 8"] by (simp add: rhe_numeral rhe_num Let_def)

lemma se_diff: "rnd64 (1441209526833789 / 576460752303423488) = Fin (1441209526833789 / 576460752303423488)"
  using rnd64_eval[of "1441209526833789 / 576460752303423488" "- 9"] by (simp add: rhe_numeral rhe_num Let_def)

lemma se_err: "rnd64 (2882419053667578 / 5764607523034235) = Fin (4503779771355591 / 9007199254740992)"
  using rnd64_eval[of "2882419053667578 / 5764607523034235" "- 1"] by (simp add: rhe_numeral rhe_num Let_def)

lemma se_rel: "relative_error (Fin (8647026576701813 / 1152921504606846976)) = Inr (Fin (4503779771355591 / 9007199254740992))"
  by (simp add: relative_error_eq opt_val se_diff se_err)

lemma se_r: "rnd64 (14412239383525967 / 36028797018963968) = Fin (900764961470373 / 2251799813685248)"
  using rnd64_eval[of "14412239383525967 / 36028797018963968" "- 2"] by (simp add: rhe_numeral rhe_num Let_def)

lemma se_q: "rnd64 (3603059845881492 / 8106479329266893) = Fin (4003399828757213 / 9007199254740992)"
  using rnd64_eval[of "3603059845881492 / 8106479329266893" "- 2"] by (simp add: rhe_numeral rhe_num Let_def)

lemma se_u: "rnd64 (5003799425983779 / 9007199254740992) = Fin (5003799425983779 / 9007199254740992)"
  using rnd64_eval[of "5003799425983779 / 9007199254740992" "- 1"] by (simp add: rhe_numeral rhe_num Let_def)

lemma se_m: "rnd64 (25018997129918895 / 4503599627370496) = Fin (1563687320619931 / 281474976710656)"
  using rnd64_eval[of "25018997129918895 / 4503599627370496" "2"] by (simp add: rhe_numeral rhe_num Let_def)

lemma se_s: "rnd64 (139 / 25) = Fin (6260003482044989 / 1125899906842624)"
  using rnd64_eval[of "139 / 25" "2"] by (simp add: rhe_numeral rhe_num Let_def)

lemma se_lin: "linear_score (4503779771355591 / 9007199254740992) = 6260003482044989 / 1125899906842624"
  by (simp add: linear_score_def Let_def rv_def tol_q_def span_q_def
        se_r se_q se_u se_m se_s rhe_numeral rhe_num)

lemma sa_v: "rnd64 (1 / 100) = Fin (5764607523034235 / 576460752303423488)"
  using rnd64_eval[of "1 / 100" "- 7"] by (simp add: rhe_numeral rhe_num Let_def)

lemma sa_diff: "rnd64 (5764607523034235 / 1152921504606846976) = Fin (5764607523034235 / 1152921504606846976)"
  using rnd64_eval[of "5764607523034235 / 1152921504606846976" "- 8"] by (simp add: rhe_numeral rhe_num Let_def)

lemma sa_err: "rnd64 1 = Fin 1"
  using rnd64_eval[of "1" "0"] by (simp add: rhe_numeral rhe_num Let_def)

lemma sa_rel: "relative_error (Fin (5764607523034235 / 576460752303423488)) = Inr (Fin 1)"
  by (simp add: relative_error_eq opt_val sa_diff sa_err)

lemma sl_v: "rnd64 (5501 / 1000000) = Fin (6342221196842265 / 1152921504606846976)"
  using rnd64_eval[of "5501 / 1000000" "- 8"] by (simp add: rhe_numeral rhe_num Let_def)

lemma sl_diff: "rnd64 (288806836904015 / 576460752303423488) = Fin (288806836904015 / 576460752303423488)"
  using rnd64_eval[of "288806836904015 / 576460752303423488" "- 11"] by (simp add: rhe_numeral rhe_num Let_def)

lemma sl_err: "rnd64 (115522734761606 / 1152921504606847) = Fin (7220170922600375 / 72057594037927936)"
  using rnd64_eval[of "115522734761606 / 1152921504606847" "- 4"] by (simp add: rhe_numeral rhe_num Let_def)

lemma sl_rel: "relative_error (Fin (6342221196842265 / 1152921504606846976)) = Inr (Fin (7220170922600375 / 72057594037927936))"
  by (simp add: relative_error_eq opt_val sl_diff sl_err)

lemma sh_v: "rnd64 (9999 / 1000000) = Fin (5764031062281931 / 576460752303423488)"
  using rnd64_eval[of "9999 / 1000000" "- 7"] by (simp add: rhe_numeral rhe_num Let_def)

lemma sh_diff: "rnd64 (5763454601529627 / 1152921504606846976) = Fin (5763454601529627 / 1152921504606846976)"
  using rnd64_eval[of "5763454601529627 / 1152921504606846976" "- 8"] by (simp add: rhe_numeral rhe_num Let_def)

lemma sh_err: "rnd64 (5763454601529627 / 5764607523034235) = Fin (4502698907445021 / 4503599627370496)"
  using rnd64_eval[of "5763454601529627 / 5764607523034235" "- 1"] by (simp add: rhe_numeral rhe_num Let_def)

lemma sh_rel: "relative_error (Fin (5764031062281931 / 576460752303423488)) = Inr (Fin (4502698907445021 / 4503599627370496))"
  by (simp add: relative_error_eq opt_val sh_diff sh_err)

lemma lo_r: "rnd64 (9007199254740867 / 22517998136852480000) = Fin (3689348814741859 / 9223372036854775808)"
  using rnd64_eval[of "9007199254740867 / 22517998136852480000" "- 12"] by (simp add: rhe_numeral rhe_num Let_def)

lemma lo_q: "rnd64 (3689348814741859 / 8301034833169298432) = Fin (8198552921648575 / 18446744073709551616)"
  using rnd64_eval[of "3689348814741859 / 8301034833169298432" "- 12"] by (simp add: rhe_numeral rhe_num Let_def)

lemma lo_u: "rnd64 (18438545520787903041 / 18446744073709551616) = Fin (4501598027536109 / 4503599627370496)"
  using rnd64_eval[of "18438545520787903041 / 18446744073709551616" "- 1"] by (simp add: rhe_numeral rhe_num Let_def)

lemma lo_m: "rnd64 (22507990137680545 / 2251799813685248) = Fin (703374691802517 / 70368744177664)"
  using rnd64_eval[of "22507990137680545 / 2251799813685248" "3"] by (simp add: rhe_numeral rhe_num Let_def)

lemma lo_s: "rnd64 10 = Fin 10"
  using rnd64_eval[of "10" "3"] by (simp add: rhe_numeral rhe_num Let_def)

lemma lo_lin: "linear_score (251 / 2500) = 10"
  by (simp add: linear_score_def Let_def rv_def tol_q_def span_q_def
        lo_r lo_q lo_u lo_m lo_s rhe_numeral rhe_num)

lemma hi_r: "rnd64 (20257191123912490883 / 22517998136852480000) = Fin (2025719112391249 / 2251799813685248)"
  using rnd64_eval[of "20257191123912490883 / 22517998136852480000" "- 1"] by (simp add: rhe_numeral rhe_num Let_def)

lemma hi_q: "rnd64 (8102876449564996 / 8106479329266893) = Fin (4501598027536109 / 4503599627370496)"
  using rnd64_eval[of "8102876449564996 / 8106479329266893" "- 1"] by (simp add: rhe_numeral rhe_num Let_def)

lemma hi_u: "rnd64 (2001599834387 / 4503599627370496) = Fin (2001599834387 / 4503599627370496)"
  using rnd64_eval[of "2001599834387 / 4503599627370496" "- 12"] by (simp add: rhe_numeral rhe_num Let_def)

lemma hi_m: "rnd64 (10007999171935 / 2251799813685248) = Fin (10007999171935 / 2251799813685248)"
  using rnd64_eval[of "10007999171935 / 2251799813685248" "- 8"] by (simp add: rhe_numeral rhe_num Let_def)

lemma hi_s: "rnd64 0 = Fin 0"
  by (rule rnd64_zero)

lemma hi_lin: "linear_score (2499 / 2500) = 0"
  by (simp add: linear_score_def Let_def rv_def tol_q_def span_q_def
        hi_r hi_q hi_u hi_m hi_s rhe_numeral rhe_num)

lemma flt_not_fle: "flt a b \<Longrightarrow> \<not> fle b a"
  by (cases a; cases b) simp_all

lemma interval_Fin:
  assumes "flt (Fin t) e1" "fle e1 e2" "flt e2 (Fin h)"
  shows "\<exists>a b. e1 = Fin a \<and> e2 = Fin b \<and> t < a \<and> a \<le> b \<and> b < h"
  using assms by (cases e1; cases e2) simp_all

subsection \<open>Graded sample outputs\<close>

lemma py_float_rnd: "py_float g = Inr v \<Longrightarrow> \<exists>x. v = rnd64 x"
  by (auto simp: py_float_def Let_def split: list.splits if_splits)

lemma student_value_rnd: "student_value ms = Inr v \<Longrightarrow> \<exists>x. v = rnd64 x"
  by (auto simp: student_value_def split: list.splits dest: py_float_rnd)

lemma fsub_not_NaN: "v \<noteq> NaN \<Longrightarrow> fsub v (Fin b) \<noteq> NaN"
  by (cases v) (simp_all add: rnd64_not_NaN)

lemma fabs_not_NaN: "v \<noteq> NaN \<Longrightarrow> fabs v \<noteq> NaN"
  by (cases v) simp_all

lemma fdiv_not_NaN: "v \<noteq> NaN \<Longrightarrow> fdiv v (Fin b) = Inr e \<Longrightarrow> b \<noteq> 0 \<Longrightarrow> e \<noteq> NaN"
  by (cases v) (auto simp: rnd64_not_NaN split: if_splits)

lemma trichotomy: "e \<noteq> NaN \<Longrightarrow> fle e (Fin t) \<or> (flt (Fin t) e \<and> flt e (Fin 1)) \<or> fle (Fin 1) e"
  by (cases e) auto

lemma ev_findall_D:
  "re_findall True ideal_point_pattern ''Ideal point: z = [0.0075, 0.2]'' = [[''0.0075'', ''0.2'']]"
  by code_simp

lemma ev_float_D: "py_float ''0.0075'' = Inr (rnd64 (75 / 10000))"
  by (simp add: py_float_def Let_def is_digit_def digits_val_def)

lemma ev_student_D: "student_value [[''0.0075'', ''0.2'']] = Inr (Fin (1080863910568919 / 144115188075855872))"
  using sd_v by (simp add: student_value_def ev_float_D)

lemma ev_findall_B:
  "re_findall True ideal_point_pattern
     (''Ideal point: z = [0.01, 0.2]'' @ [CHR 0x0A] @ ''Ideal point: z = [0.0055, 0.3]'')
   = [[''0.01'', ''0.2''], [''0.0055'', ''0.3'']]"
  by code_simp

lemma ev_findall_B_alone:
  "re_findall True ideal_point_pattern ''Ideal point: z = [0.0055, 9]'' = [[''0.0055'', ''9'']]"
  by code_simp

lemma ev_findall_A:
  "re_findall True ideal_point_pattern ''Ideal point: z = [0.01, 0.2]'' = [[''0.01'', ''0.2'']]"
  by code_simp

lemma ev_float_B: "py_float ''0.0055'' = Inr (rnd64 (55 / 10000))"
  by (simp add: py_float_def Let_def is_digit_def digits_val_def)

lemma ev_float_A: "py_float ''0.01'' = Inr (rnd64 (1 / 100))"
  by (simp add: py_float_def Let_def is_digit_def digits_val_def)

lemma ev_score_B: "score_of_error (Fin (7205759403792787 / 72057594037927936)) = Inr (Fin 10)"
  by (simp add: score_of_error_def tolerance_val round2_ten del: round2.simps)

lemma ev_score_A: "score_of_error (Fin 1) = Inr (Fin 0)"
  by (simp add: score_of_error_def tolerance_val round2_zero del: round2.simps)

lemma student_value_last:
  "ms \<noteq> [] \<Longrightarrow> last ms = g # r \<Longrightarrow> student_value ms = py_float g"
  by (cases ms) (simp_all add: student_value_def)

lemma ev_findall_E:
  "re_findall True ideal_point_pattern ''Ideal point: z = [0.0075001, 0.2]''
     = [[''0.0075001'', ''0.2'']]"
  by code_simp

lemma ev_float_E: "py_float ''0.0075001'' = Inr (rnd64 (75001 / 10000000))"
  by (simp add: py_float_def Let_def is_digit_def digits_val_def)

lemma ev_student_E: "student_value [[''0.0075001'', ''0.2'']] = Inr (Fin (8647026576701813 / 1152921504606846976))"
  using se_v by (simp add: student_value_def ev_float_E)

lemma ev_score_D: "score_of_error (Fin (4503599627370495 / 9007199254740992)) = Inr (Fin (6260003482044989 / 1125899906842624))"
  using score_of_error_mid[of "4503599627370495 / 9007199254740992"] by (simp add: tol_q_def sd_lin)

lemma ev_score_E: "score_of_error (Fin (4503779771355591 / 9007199254740992)) = Inr (Fin (6260003482044989 / 1125899906842624))"
  using score_of_error_mid[of "4503779771355591 / 9007199254740992"] by (simp add: tol_q_def se_lin)

lemma ev_grade_D:
  "grade_result (Some ''Ideal point: z = [0.0075, 0.2]'')
     = Inr (PyFloat (Fin (6260003482044989 / 1125899906842624)), feedback_text (Fin (1080863910568919 / 144115188075855872)) (Fin (4503599627370495 / 9007199254740992)) (Fin (6260003482044989 / 1125899906842624)))"
  by (rule grade_scored[where e = "Fin (4503599627370495 / 9007199254740992)"])
     (simp_all only: ev_findall_D ev_student_D sd_rel ev_score_D, simp)

lemma ev_grade_E:
  "grade_result (Some ''Ideal point: z = [0.0075001, 0.2]'')
     = Inr (PyFloat (Fin (6260003482044989 / 1125899906842624)), feedback_text (Fin (8647026576701813 / 1152921504606846976)) (Fin (4503779771355591 / 9007199254740992)) (Fin (6260003482044989 / 1125899906842624)))"
  by (rule grade_scored[where e = "Fin (4503779771355591 / 9007199254740992)"])
     (simp_all only: ev_findall_E ev_student_E se_rel ev_score_E, simp)

lemma ev_messages:
  "sublist ''Could not find'' not_found_message"
  "sublist ''Could not parse'' not_parsed_message"
  unfolding not_found_message_def not_parsed_message_def by code_simp+

section \<open>The claims\<close>


text \<open>
  Claim C1. When the first number of the last match is read as the float \<open>v\<close>,
  the relative error is \<open>e = |v - 0.005| / 0.005\<close> and the score is the value of
  the piecewise formula, rounded to two decimals: 10.0 when \<open>e \<le> 0.10\<close>;
  \<open>10.0 * (1 - (e - 0.10) / 0.90)\<close> when \<open>0.10 < e < 1.0\<close>; 0.0 when
  \<open>e \<ge> 1.0\<close>. The decimals are float literals and the arithmetic is that of
  floats; one of the three cases always applies.
\<close>

theorem score_is_piecewise:
  assumes "re_findall True ideal_point_pattern out \<noteq> []"
    and "student_value (re_findall True ideal_point_pattern out) = Inr v"
  shows "\<exists>e raw.
      fdiv (fabs (fsub v (rnd64 (5 / 1000)))) (rnd64 (5 / 1000)) = Inr e
      \<and> grade_result (Some out) = Inr (PyFloat (round2 raw), feedback_text v e (round2 raw))
      \<and> (fle e (rnd64 (10 / 100)) \<longrightarrow> raw = Fin 10)
      \<and> (flt (rnd64 (10 / 100)) e \<and> flt e (Fin 1) \<longrightarrow>
           (\<exists>q. fdiv (fsub e (rnd64 (10 / 100))) (rnd64 (90 / 100)) = Inr q
              \<and> raw = fmul (Fin 10) (fsub (Fin 1) q)))
      \<and> (fle (Fin 1) e \<longrightarrow> raw = Fin 0)
      \<and> (fle e (rnd64 (10 / 100)) \<or> (flt (rnd64 (10 / 100)) e \<and> flt e (Fin 1)) \<or> fle (Fin 1) e)"
proof -
  obtain e where e: "relative_error v = Inr e" using relative_error_total by blast
  then have e': "fdiv (fabs (fsub v (rnd64 (5 / 1000)))) (rnd64 (5 / 1000)) = Inr e"
    by (simp add: relative_error_eq OPTIMAL_F1_def)
  obtain x where "v = rnd64 x" using student_value_rnd[OF assms(2)] by blast
  then have "v \<noteq> NaN" by (simp add: rnd64_not_NaN)
  then have "fabs (fsub v OPTIMAL_F1) \<noteq> NaN"
    unfolding opt_val by (intro fabs_not_NaN fsub_not_NaN)
  then have en: "e \<noteq> NaN"
    using e unfolding relative_error_eq unfolding opt_val by (rule fdiv_not_NaN) simp
  obtain q where q: "fdiv (fsub e TOLERANCE) (fsub (Fin 1) TOLERANCE) = Inr q"
    unfolding one_minus_tolerance ninety_val
    using fdiv_total[of "8106479329266893 / 9007199254740992"] by auto
  define raw where "raw =
    (if fle e TOLERANCE then Fin 10 else if flt e (Fin 1) then fmul (Fin 10) (fsub (Fin 1) q) else Fin 0)"
  have s: "score_of_error e = Inr (round2 raw)"
    using q by (simp add: score_of_error_def raw_def)
  have g: "grade_result (Some out) = Inr (PyFloat (round2 raw), feedback_text v e (round2 raw))"
    using grade_scored[OF assms e s] .
  have t: "TOLERANCE = rnd64 (10 / 100)" by (simp add: TOLERANCE_def)
  have c1: "fle e (rnd64 (10 / 100)) \<longrightarrow> raw = Fin 10"
    by (simp add: raw_def t)
  have c2: "flt (rnd64 (10 / 100)) e \<and> flt e (Fin 1) \<longrightarrow>
           (\<exists>q. fdiv (fsub e (rnd64 (10 / 100))) (rnd64 (90 / 100)) = Inr q
              \<and> raw = fmul (Fin 10) (fsub (Fin 1) q))"
  proof
    assume h: "flt (rnd64 (10 / 100)) e \<and> flt e (Fin 1)"
    then have "\<not> fle e TOLERANCE" unfolding t by (intro flt_not_fle) simp
    then have r: "raw = fmul (Fin 10) (fsub (Fin 1) q)" using h by (simp add: raw_def)
    have omt: "fsub (Fin 1) (rnd64 (10 / 100)) = rnd64 (90 / 100)"
      using one_minus_tolerance unfolding t .
    have "fdiv (fsub e (rnd64 (10 / 100))) (rnd64 (90 / 100)) = Inr q"
      using q unfolding t omt .
    with r show "\<exists>q. fdiv (fsub e (rnd64 (10 / 100))) (rnd64 (90 / 100)) = Inr q
              \<and> raw = fmul (Fin 10) (fsub (Fin 1) q)" by blast
  qed
  have c3: "fle (Fin 1) e \<longrightarrow> raw = Fin 0"
  proof
    assume h: "fle (Fin 1) e"
    then have "\<not> flt e (Fin 1)" by (cases e) simp_all
    moreover have "\<not> fle e TOLERANCE" using h unfolding tolerance_val by (cases e) simp_all
    ultimately show "raw = Fin 0" by (simp add: raw_def)
  qed
  have c4: "fle e (rnd64 (10 / 100)) \<or> (flt (rnd64 (10 / 100)) e \<and> flt e (Fin 1)) \<or> fle (Fin 1) e"
    using trichotomy[OF en] unfolding t[symmetric] tolerance_val by blast
  show ?thesis using e' g c1 c2 c3 c4 by blast
qed

theorem score_is_piecewise_witness:
  "grade_result (Some ''Ideal point: z = [0.0075, 0.2]'')
     = Inr (PyFloat (rnd64 (556 / 100)),
            feedback_text (rnd64 (75 / 10000)) (Fin (4503599627370495 / 9007199254740992)) (rnd64 (556 / 100)))"
proof -
  let ?out = "''Ideal point: z = [0.0075, 0.2]''"
  have h1: "re_findall True ideal_point_pattern ?out \<noteq> []"
    unfolding ev_findall_D by simp
  have h2: "student_value (re_findall True ideal_point_pattern ?out) = Inr (Fin (1080863910568919 / 144115188075855872))"
    unfolding ev_findall_D by (rule ev_student_D)
  obtain e raw where
      a: "fdiv (fabs (fsub (Fin (1080863910568919 / 144115188075855872)) (rnd64 (5 / 1000)))) (rnd64 (5 / 1000)) = Inr e"
    and b: "grade_result (Some ?out)
          = Inr (PyFloat (round2 raw), feedback_text (Fin (1080863910568919 / 144115188075855872)) e (round2 raw))"
    and c: "flt (rnd64 (10 / 100)) e \<and> flt e (Fin 1) \<longrightarrow>
           (\<exists>q. fdiv (fsub e (rnd64 (10 / 100))) (rnd64 (90 / 100)) = Inr q
              \<and> raw = fmul (Fin 10) (fsub (Fin 1) q))"
    using score_is_piecewise[OF h1 h2] by blast
  have "relative_error (Fin (1080863910568919 / 144115188075855872)) = Inr e"
    using a by (simp add: relative_error_eq OPTIMAL_F1_def)
  then have e: "e = Fin (4503599627370495 / 9007199254740992)" using sd_rel by simp
  have "flt (rnd64 (10 / 100)) e \<and> flt e (Fin 1)"
    unfolding e using tol_val by simp
  then obtain q where q: "fdiv (fsub e (rnd64 (10 / 100))) (rnd64 (90 / 100)) = Inr q"
    and raw: "raw = fmul (Fin 10) (fsub (Fin 1) q)" using c by blast
  have "q = Fin (4003199668773773 / 9007199254740992)"
    using q unfolding e tol_val ninety_val by (simp add: sd_r sd_q)
  then have "raw = Fin (390937467653689 / 70368744177664)"
    using raw by (simp add: sd_u sd_m)
  then have r: "round2 raw = rnd64 (556 / 100)"
    by (simp add: rhe_numeral rhe_num Let_def)
  show ?thesis using b unfolding r e using sd_v by simp
qed

text \<open>
  Claim C2 does not hold of the code. The loop over the cells stands between the two
  \<^verbatim>\<open>try\<close> blocks of \<^verbatim>\<open>execute_notebook\<close>, and \<^verbatim>\<open>main\<close> has none. For a
  notebook that is read although a cell of it does not follow the notebook schema, the
  loop raises, the exception leaves \<^verbatim>\<open>main\<close>, no report is printed and no subprocess
  is started: \<^verbatim>\<open>AttributeError\<close> for a code cell without \<^verbatim>\<open>source\<close>,
  \<^verbatim>\<open>TypeError\<close> for a code cell whose \<^verbatim>\<open>source\<close> is not a string, and
  \<^verbatim>\<open>AttributeError\<close> for a cell without \<^verbatim>\<open>cell_type\<close>, also after a code cell
  that was read. In each of the three runs the subprocess would have printed the target
  value.
\<close>

theorem malformed_notebook_escapes:
  "main (world [sourceless_cell] (Completed 0 ''Ideal point: z = [0.005, 0.1]'' []))
     = (Inl AttributeError, [])
   \<and> main (world [odd_source_cell] (Completed 0 ''Ideal point: z = [0.005, 0.1]'' []))
     = (Inl TypeError, [])
   \<and> main (world [code_cell ''x = 1'', typeless_cell] (Completed 0 ''Ideal point: z = [0.005, 0.1]'' []))
     = (Inl AttributeError, [])"
proof -
  let ?res = "Completed 0 ''Ideal point: z = [0.005, 0.1]'' []"
  have r: "nb_read (world cells ?res) notebook_path = Inr cells" for cells
    by (simp only: world_simps)
  have a: "main (world [sourceless_cell] ?res) = (Inl AttributeError, [])"
    by (rule main_raised, rule exec_raised[OF r ev_collect_malformed(1)])
  have b: "main (world [odd_source_cell] ?res) = (Inl TypeError, [])"
    by (rule main_raised, rule exec_raised[OF r ev_collect_malformed(2)])
  have c: "main (world [code_cell ''x = 1'', typeless_cell] ?res) = (Inl AttributeError, [])"
    by (rule main_raised, rule exec_raised[OF r ev_collect_malformed(3)])
  show ?thesis using a b c by (intro conjI)
qed

text \<open>
  Claim C3. The grade depends on the output only through the first number of the last
  match: two outputs whose last matches have the same first number get the same grade.
  In particular, for the two lines \<^verbatim>\<open>[0.01, 0.2]\<close> then
  \<^verbatim>\<open>[0.0055, 0.3]\<close> the student's value is 0.0055, the relative error is 10% (as a
  float 0.09999999999999991, within the tolerance), and the score is 10.0; the first line
  alone would score 0.0.
\<close>

theorem last_match_decides:
  "(\<forall>out' g r r'.
      re_findall True ideal_point_pattern out \<noteq> []
      \<and> last (re_findall True ideal_point_pattern out) = g # r
      \<and> re_findall True ideal_point_pattern out' \<noteq> []
      \<and> last (re_findall True ideal_point_pattern out') = g # r' \<longrightarrow>
      grade_result (Some out) = grade_result (Some out'))
   \<and> re_findall True ideal_point_pattern
       (''Ideal point: z = [0.01, 0.2]'' @ [CHR 0x0A] @ ''Ideal point: z = [0.0055, 0.3]'')
     = [[''0.01'', ''0.2''], [''0.0055'', ''0.3'']]
   \<and> grade_result
       (Some (''Ideal point: z = [0.01, 0.2]'' @ [CHR 0x0A] @ ''Ideal point: z = [0.0055, 0.3]''))
     = Inr (PyFloat (Fin 10),
            feedback_text (rnd64 (55 / 10000)) (Fin (7205759403792787 / 72057594037927936)) (Fin 10))
   \<and> fle (Fin (7205759403792787 / 72057594037927936)) TOLERANCE
   \<and> \<bar>(7205759403792787 / 72057594037927936) - 1 / 10\<bar> < (1 / 10 ^ 15 :: rat)
   \<and> grade_result (Some ''Ideal point: z = [0.01, 0.2]'')
     = Inr (PyFloat (Fin 0), feedback_text (rnd64 (1 / 100)) (Fin 1) (Fin 0))"
proof (intro conjI allI impI)
  fix out' g r r'
  assume h: "re_findall True ideal_point_pattern out \<noteq> []
      \<and> last (re_findall True ideal_point_pattern out) = g # r
      \<and> re_findall True ideal_point_pattern out' \<noteq> []
      \<and> last (re_findall True ideal_point_pattern out') = g # r'"
  have 1: "student_value (re_findall True ideal_point_pattern out) = py_float g"
    using h by (intro student_value_last) auto
  have 2: "student_value (re_findall True ideal_point_pattern out') = py_float g"
    using h by (intro student_value_last) auto
  show "grade_result (Some out) = grade_result (Some out')"
    using h by (simp add: grade_result_def 1 2)
next
  show "re_findall True ideal_point_pattern
       (''Ideal point: z = [0.01, 0.2]'' @ [CHR 0x0A] @ ''Ideal point: z = [0.0055, 0.3]'')
     = [[''0.01'', ''0.2''], [''0.0055'', ''0.3'']]"
    by (rule ev_findall_B)
next
  have s: "student_value [[''0.01'', ''0.2''], [''0.0055'', ''0.3'']] = Inr (Fin (3170534137668829 / 576460752303423488))"
    using sb_v by (simp add: student_value_def ev_float_B)
  have "grade_result
       (Some (''Ideal point: z = [0.01, 0.2]'' @ [CHR 0x0A] @ ''Ideal point: z = [0.0055, 0.3]''))
     = Inr (PyFloat (Fin 10), feedback_text (Fin (3170534137668829 / 576460752303423488)) (Fin (7205759403792787 / 72057594037927936)) (Fin 10))"
    by (rule grade_scored[where e = "Fin (7205759403792787 / 72057594037927936)"])
       (simp_all only: ev_findall_B s sb_rel ev_score_B, simp)
  then show "grade_result
       (Some (''Ideal point: z = [0.01, 0.2]'' @ [CHR 0x0A] @ ''Ideal point: z = [0.0055, 0.3]''))
     = Inr (PyFloat (Fin 10),
            feedback_text (rnd64 (55 / 10000)) (Fin (7205759403792787 / 72057594037927936)) (Fin 10))"
    using sb_v by simp
next
  show "fle (Fin (7205759403792787 / 72057594037927936)) TOLERANCE" by (simp add: tolerance_val)
next
  show "\<bar>(7205759403792787 / 72057594037927936) - 1 / 10\<bar> < (1 / 10 ^ 15 :: rat)" by simp
next
  have s: "student_value [[''0.01'', ''0.2'']] = Inr (Fin (5764607523034235 / 576460752303423488))"
    using sa_v by (simp add: student_value_def ev_float_A)
  have "grade_result (Some ''Ideal point: z = [0.01, 0.2]'')
     = Inr (PyFloat (Fin 0), feedback_text (Fin (5764607523034235 / 576460752303423488)) (Fin 1) (Fin 0))"
    by (rule grade_scored[where e = "Fin 1"])
       (simp_all only: ev_findall_A s sa_rel ev_score_A, simp)
  then show "grade_result (Some ''Ideal point: z = [0.01, 0.2]'')
     = Inr (PyFloat (Fin 0), feedback_text (rnd64 (1 / 100)) (Fin 1) (Fin 0))"
    using sa_v by simp
qed

theorem last_match_decides_witness:
  "grade_result
       (Some (''Ideal point: z = [0.01, 0.2]'' @ [CHR 0x0A] @ ''Ideal point: z = [0.0055, 0.3]''))
     = grade_result (Some ''Ideal point: z = [0.0055, 9]'')"
proof -
  have h: "re_findall True ideal_point_pattern
        (''Ideal point: z = [0.01, 0.2]'' @ [CHR 0x0A] @ ''Ideal point: z = [0.0055, 0.3]'') \<noteq> []
      \<and> last (re_findall True ideal_point_pattern
        (''Ideal point: z = [0.01, 0.2]'' @ [CHR 0x0A] @ ''Ideal point: z = [0.0055, 0.3]''))
          = ''0.0055'' # [''0.3'']
      \<and> re_findall True ideal_point_pattern ''Ideal point: z = [0.0055, 9]'' \<noteq> []
      \<and> last (re_findall True ideal_point_pattern ''Ideal point: z = [0.0055, 9]'')
          = ''0.0055'' # [''9'']"
    unfolding ev_findall_B ev_findall_B_alone by simp
  show ?thesis
    by (rule last_match_decides[THEN conjunct1, rule_format, OF h])
qed

text \<open>
  Claim C4. For a notebook whose cells the loop can read (each has a \<^verbatim>\<open>cell_type\<close>,
  each code cell a string as its \<^verbatim>\<open>source\<close>: every notebook of the notebook format),
  the program extracted is the concatenation, in the order of the document, of the
  sources of its code cells, each followed by a newline, where in each source every line
  that contains \<^verbatim>\<open># YOUR CODE HERE\<close> has been replaced by \<^verbatim>\<open>1\<close>. It depends on
  the cells alone: whatever the world, a subprocess that is started is handed this
  program.
\<close>

theorem extracted_program:
  assumes "\<forall>c\<in>set cells. readable_cell c"
  shows "collect_code [] cells =
     Inr (concat (map (\<lambda>c. replace_placeholder_lines (source_text c) @ [CHR 0x0A])
                      (filter (\<lambda>c. cell_type c = Text ''code'') cells)))
   \<and> (\<forall>(w::env) p. nb_read w p = Inr cells \<longrightarrow>
         snd (execute_notebook w p) = []
         \<or> snd (execute_notebook w p) =
             [([sys_executable w, ''-c'',
                concat (map (\<lambda>c. replace_placeholder_lines (source_text c) @ [CHR 0x0A])
                            (filter (\<lambda>c. cell_type c = Text ''code'') cells))], 240)])"
proof -
  define prog where "prog = concat (map (\<lambda>c. replace_placeholder_lines (source_text c) @ [CHR 0x0A])
                      (filter (\<lambda>c. cell_type c = Text ''code'') cells))"
  have cc: "collect_code [] cells = Inr prog"
    using collect_code_concat[OF assms, of "[]"]
    unfolding re_sub_placeholder_lines prog_def by simp
  have "snd (execute_notebook w p) = []
         \<or> snd (execute_notebook w p) = [([sys_executable w, ''-c'', prog], 240)]"
    if r: "nb_read w p = Inr cells" for w :: env and p
  proof (cases "sublist ''n_subproblems = 1'' prog")
    case True
    then show ?thesis using exec_gate[OF r cc] by simp
  next
    case False
    then show ?thesis using exec_run[OF r cc] by simp
  qed
  then show ?thesis using cc unfolding prog_def by blast
qed

theorem extracted_program_witness:
  "collect_code [] sample_cells
     = Inr (''x = 1'' @ [CHR 0x0A] @ ''1'' @ [CHR 0x0A] @ ''y = 2'' @ [CHR 0x0A] @ ''run()'' @ [CHR 0x0A])
   \<and> snd (execute_notebook (world sample_cells TimeoutExpired) notebook_path)
     = [([''python3'', ''-c'',
          ''x = 1'' @ [CHR 0x0A] @ ''1'' @ [CHR 0x0A] @ ''y = 2'' @ [CHR 0x0A] @ ''run()'' @ [CHR 0x0A]], 240)]"
proof -
  let ?w = "world sample_cells TimeoutExpired"
  let ?prog = "''x = 1'' @ [CHR 0x0A] @ ''1'' @ [CHR 0x0A] @ ''y = 2'' @ [CHR 0x0A] @ ''run()'' @ [CHR 0x0A]"
  have a: "collect_code [] sample_cells = Inr ?prog"
    using extracted_program[OF ev_sample_readable, THEN conjunct1] unfolding ev_sample_lines .
  have r: "nb_read ?w notebook_path = Inr sample_cells" by (simp only: world_simps)
  have "snd (execute_notebook ?w notebook_path) = []
         \<or> snd (execute_notebook ?w notebook_path) = [([sys_executable ?w, ''-c'', ?prog], 240)]"
    using extracted_program[OF ev_sample_readable, THEN conjunct2, rule_format, OF r]
    unfolding ev_sample_lines .
  moreover have "snd (execute_notebook ?w notebook_path) \<noteq> []"
    using exec_run[OF r a ev_sample_gate] by simp
  ultimately have "snd (execute_notebook ?w notebook_path)
              = [([sys_executable ?w, ''-c'', ?prog], 240)]" by simp
  then show ?thesis using a unfolding world_simps by simp
qed

text \<open>
  Claim C5. When the code collected from the notebook contains the literal
  \<^verbatim>\<open>n_subproblems = 1\<close>, the run stops before anything is executed: the report
  has score 0, its feedback is the message that asks to complete the configuration, and
  no subprocess is started.
\<close>

theorem unconfigured_short_circuits:
  assumes "nb_read w notebook_path = Inr cells"
    and "collect_code [] cells = Inr full_code"
    and "sublist ''n_subproblems = 1'' full_code"
  shows "main w = (Inr (test_result (PyInt 0) [Txt not_configured_message]), [])
       \<and> sublist ''complete the configuration'' not_configured_message"
proof -
  have "not_configured_message \<noteq> []" by (simp add: not_configured_message_def)
  then have "main w = (Inr (test_result (PyInt 0) [Txt not_configured_message]), [])"
    using main_error exec_gate[OF assms] by blast
  moreover have "sublist ''complete the configuration'' not_configured_message"
    unfolding not_configured_message_def by code_simp
  ultimately show ?thesis by simp
qed

theorem unconfigured_short_circuits_witness:
  "main (world [code_cell ''n_subproblems = 1''] (Completed 0 [] []))
     = (Inr (test_result (PyInt 0) [Txt not_configured_message]), [])"
proof -
  let ?w = "world [code_cell ''n_subproblems = 1''] (Completed 0 [] [])"
  have h1: "nb_read ?w notebook_path = Inr [code_cell ''n_subproblems = 1'']"
    by (simp only: world_simps)
  show ?thesis
    using unconfigured_short_circuits[OF h1 ev_collect_gate ev_gate_hit] by (rule conjunct1)
qed

text \<open>
  Claim C6. When \<^verbatim>\<open>subprocess.run\<close>, called with the timeout of 240 seconds,
  raises \<^verbatim>\<open>TimeoutExpired\<close>, \<^verbatim>\<open>execute_notebook\<close> returns no output and
  the message that the run timed out, the report has score 0 with that message as its
  feedback, and the student's code was started exactly once: it is not run again.
\<close>

theorem timeout_is_reported_once:
  assumes "nb_read w notebook_path = Inr cells"
    and "collect_code [] cells = Inr full_code"
    and "\<not> sublist ''n_subproblems = 1'' full_code"
    and "subprocess_run w [sys_executable w, ''-c'', full_code] 240 = TimeoutExpired"
  shows "execute_notebook w notebook_path =
           (Inr (None, Some timeout_message), [([sys_executable w, ''-c'', full_code], 240)])
       \<and> main w = (Inr (test_result (PyInt 0) [Txt timeout_message]),
                   [([sys_executable w, ''-c'', full_code], 240)])
       \<and> sublist ''timed out'' timeout_message"
proof -
  have ex: "execute_notebook w notebook_path =
      (Inr (None, Some timeout_message), [([sys_executable w, ''-c'', full_code], 240)])"
    using exec_run[OF assms(1,2,3)] assms(4) by simp
  have "timeout_message \<noteq> []" by (simp add: timeout_message_def)
  then have "main w = (Inr (test_result (PyInt 0) [Txt timeout_message]),
                   [([sys_executable w, ''-c'', full_code], 240)])"
    using main_error ex by blast
  moreover have "sublist ''timed out'' timeout_message"
    unfolding timeout_message_def by code_simp
  ultimately show ?thesis using ex by simp
qed

theorem timeout_is_reported_once_witness:
  "main (world [code_cell ''run()''] TimeoutExpired)
     = (Inr (test_result (PyInt 0) [Txt timeout_message]),
        [([''python3'', ''-c'', ''run()'' @ [CHR 0x0A]], 240)])"
proof -
  let ?w = "world [code_cell ''run()''] TimeoutExpired"
  have h1: "nb_read ?w notebook_path = Inr [code_cell ''run()'']"
    by (simp only: world_simps)
  have h3: "subprocess_run ?w [sys_executable ?w, ''-c'', ''run()'' @ [CHR 0x0A]] 240
      = TimeoutExpired"
    by (simp only: world_simps)
  have "main ?w = (Inr (test_result (PyInt 0) [Txt timeout_message]),
      [([sys_executable ?w, ''-c'', ''run()'' @ [CHR 0x0A]], 240)])"
    using timeout_is_reported_once[OF h1 ev_collect_run ev_gate_miss h3] by blast
  then show ?thesis unfolding world_simps .
qed

text \<open>
  Claim C7, as stated, fails: the diagnostic is not the captured standard error alone.
  A run that ends with return code 1 and the standard error \<^verbatim>\<open>boom\<close> has the
  diagnostic \<^verbatim>\<open>Code execution failed with an error:\<close>, a newline, and then
  \<^verbatim>\<open>boom\<close>.
\<close>

theorem diagnostic_is_not_stderr_alone:
  "fst (execute_notebook (world [code_cell ''run()''] (Completed 1 [] ''boom'')) notebook_path)
     = Inr (None, Some (''Code execution failed with an error:'' @ [CHR 0x0A] @ ''boom''))
   \<and> ''Code execution failed with an error:'' @ [CHR 0x0A] @ ''boom'' \<noteq> ''boom''"
proof -
  let ?w = "world [code_cell ''run()''] (Completed 1 [] ''boom'')"
  have h1: "nb_read ?w notebook_path = Inr [code_cell ''run()'']"
    by (simp only: world_simps)
  show ?thesis using exec_run[OF h1 ev_collect_run ev_gate_miss] by (simp add: world_simps)
qed

text \<open>
  Claim C7, amended. When the subprocess ends with a return code other than 0,
  \<^verbatim>\<open>execute_notebook\<close> returns no output and a diagnostic made of the fixed line
  \<^verbatim>\<open>Code execution failed with an error:\<close>, a newline, and the captured standard
  error, unchanged; the report has score 0 and that diagnostic as its feedback.
\<close>

theorem nonzero_exit_surfaces_stderr:
  assumes "nb_read w notebook_path = Inr cells"
    and "collect_code [] cells = Inr full_code"
    and "\<not> sublist ''n_subproblems = 1'' full_code"
    and "subprocess_run w [sys_executable w, ''-c'', full_code] 240
           = Completed returncode out err"
    and "returncode \<noteq> 0"
  shows "fst (execute_notebook w notebook_path) =
           Inr (None, Some (''Code execution failed with an error:'' @ [CHR 0x0A] @ err))
       \<and> fst (main w) = Inr (test_result (PyInt 0)
             [Txt (''Code execution failed with an error:'' @ [CHR 0x0A] @ err)])
       \<and> suffix err (''Code execution failed with an error:'' @ [CHR 0x0A] @ err)"
proof -
  have ex: "execute_notebook w notebook_path =
      (Inr (None, Some (''Code execution failed with an error:'' @ [CHR 0x0A] @ err)),
       [([sys_executable w, ''-c'', full_code], 240)])"
    using exec_run[OF assms(1,2,3)] assms(4,5) by simp
  have "''Code execution failed with an error:'' @ [CHR 0x0A] @ err \<noteq> []" by simp
  then have "main w = (Inr (test_result (PyInt 0)
             [Txt (''Code execution failed with an error:'' @ [CHR 0x0A] @ err)]),
             [([sys_executable w, ''-c'', full_code], 240)])"
    using main_error ex by blast
  moreover have "suffix err (''Code execution failed with an error:'' @ [CHR 0x0A] @ err)"
    by (rule suffixI[of _ "''Code execution failed with an error:'' @ [CHR 0x0A]"]) simp
  ultimately show ?thesis using ex by simp
qed

theorem nonzero_exit_surfaces_stderr_witness:
  "fst (main (world [code_cell ''run()''] (Completed 1 ''partial'' ''NameError: run'')))
     = Inr (test_result (PyInt 0)
         [Txt (''Code execution failed with an error:'' @ [CHR 0x0A] @ ''NameError: run'')])"
proof -
  let ?w = "world [code_cell ''run()''] (Completed 1 ''partial'' ''NameError: run'')"
  have h1: "nb_read ?w notebook_path = Inr [code_cell ''run()'']"
    by (simp only: world_simps)
  have h3: "subprocess_run ?w [sys_executable ?w, ''-c'', ''run()'' @ [CHR 0x0A]] 240
      = Completed 1 ''partial'' ''NameError: run''"
    by (simp only: world_simps)
  have h4: "(1::int) \<noteq> 0" by simp
  show ?thesis
    using nonzero_exit_surfaces_stderr[OF h1 ev_collect_run ev_gate_miss h3 h4] by blast
qed

text \<open>
  Claim C8. For a successful run, when the pattern occurs nowhere in the output the
  grade is 0 with the message that the ideal point was not found; when it occurs and the
  first number of its last occurrence is not a float, the grade is 0 with the message
  that the values could not be parsed. The two messages begin with
  \<^verbatim>\<open>Could not find\<close> and \<^verbatim>\<open>Could not parse\<close>.
\<close>

theorem missing_or_unparsable_marker:
  "(re_findall True ideal_point_pattern out = [] \<longrightarrow>
      grade_result (Some out) = Inr (PyInt 0, [Txt not_found_message]))
   \<and> (\<forall>g gs. re_findall True ideal_point_pattern out \<noteq> []
          \<and> last (re_findall True ideal_point_pattern out) = g # gs
          \<and> py_float g = Inl ValueError \<longrightarrow>
      grade_result (Some out) = Inr (PyInt 0, [Txt not_parsed_message]))
   \<and> sublist ''Could not find'' not_found_message
   \<and> sublist ''Could not parse'' not_parsed_message"
proof (intro conjI allI impI)
  show "sublist ''Could not find'' not_found_message" by (rule ev_messages)
next
  show "sublist ''Could not parse'' not_parsed_message" by (rule ev_messages)
next
  assume "re_findall True ideal_point_pattern out = []"
  then show "grade_result (Some out) = Inr (PyInt 0, [Txt not_found_message])"
    by (rule grade_not_found)
next
  fix g gs
  assume h: "re_findall True ideal_point_pattern out \<noteq> []
          \<and> last (re_findall True ideal_point_pattern out) = g # gs
          \<and> py_float g = Inl ValueError"
  then have "student_value (re_findall True ideal_point_pattern out) = Inl ValueError"
    by (cases "re_findall True ideal_point_pattern out") (simp_all add: student_value_def)
  then show "grade_result (Some out) = Inr (PyInt 0, [Txt not_parsed_message])"
    using h grade_not_parsed by blast
qed

theorem missing_or_unparsable_marker_witness:
  "grade_result (Some ''done'') = Inr (PyInt 0, [Txt not_found_message])
   \<and> grade_result (Some ''Ideal point: z = [1.2.3, 4]'') = Inr (PyInt 0, [Txt not_parsed_message])"
proof -
  have a: "grade_result (Some ''done'') = Inr (PyInt 0, [Txt not_found_message])"
    by (rule missing_or_unparsable_marker[THEN conjunct1, THEN mp, OF ev_findall_none])
  have h: "re_findall True ideal_point_pattern ''Ideal point: z = [1.2.3, 4]'' \<noteq> []
      \<and> last (re_findall True ideal_point_pattern ''Ideal point: z = [1.2.3, 4]'') = ''1.2.3'' # [''4'']
      \<and> py_float ''1.2.3'' = Inl ValueError"
    unfolding ev_findall_unparsable using ev_float_unparsable by simp
  have b: "grade_result (Some ''Ideal point: z = [1.2.3, 4]'') = Inr (PyInt 0, [Txt not_parsed_message])"
    by (rule missing_or_unparsable_marker[THEN conjunct2, THEN conjunct1, rule_format, OF h])
  show ?thesis using a b by (rule conjI)
qed

text \<open>
  Claim C9, as stated, fails: the reported score is rounded to two decimals, so two
  different relative errors can have the same score. The outputs
  \<^verbatim>\<open>[0.0075, 0.2]\<close> and \<^verbatim>\<open>[0.0075001, 0.2]\<close> have the relative errors
  0.4999999999999999 and 0.50002, both inside (0.10, 1.0), and both are scored 5.56.
\<close>

theorem score_not_strictly_decreasing:
  "grade_result (Some ''Ideal point: z = [0.0075, 0.2]'')
     = Inr (PyFloat (rnd64 (556 / 100)),
            feedback_text (rnd64 (75 / 10000)) (Fin (4503599627370495 / 9007199254740992)) (rnd64 (556 / 100)))
   \<and> grade_result (Some ''Ideal point: z = [0.0075001, 0.2]'')
     = Inr (PyFloat (rnd64 (556 / 100)),
            feedback_text (rnd64 (75001 / 10000000)) (Fin (4503779771355591 / 9007199254740992)) (rnd64 (556 / 100)))
   \<and> flt TOLERANCE (Fin (4503599627370495 / 9007199254740992))
   \<and> flt (Fin (4503599627370495 / 9007199254740992)) (Fin (4503779771355591 / 9007199254740992))
   \<and> flt (Fin (4503779771355591 / 9007199254740992)) (Fin 1)
   \<and> score_of_error (Fin (4503599627370495 / 9007199254740992)) = Inr (rnd64 (556 / 100))
   \<and> score_of_error (Fin (4503779771355591 / 9007199254740992)) = Inr (rnd64 (556 / 100))"
proof -
  have s: "rnd64 (556 / 100) = Fin (6260003482044989 / 1125899906842624)" using sd_s by simp
  have d: "rnd64 (75 / 10000) = Fin (1080863910568919 / 144115188075855872)" using sd_v by simp
  have e: "rnd64 (75001 / 10000000) = Fin (8647026576701813 / 1152921504606846976)" using se_v by simp
  show ?thesis
    unfolding s d e ev_grade_D ev_grade_E ev_score_D ev_score_E
    by (simp add: tolerance_val)
qed

text \<open>
  Claim C9, amended. On the relative errors between 0.10 and 1.0 the reported score
  does not increase with the error and stays between 0.0 and 10.0; it is 10.0 for every
  error above 0.10 up to 0.1004, and 0.0 for every error from 0.9996 up to, and excluding,
  1.0.
\<close>

theorem score_non_increasing:
  "(flt TOLERANCE e1 \<and> fle e1 e2 \<and> flt e2 (Fin 1) \<longrightarrow>
      (\<exists>s1 s2. score_of_error e1 = Inr s1 \<and> score_of_error e2 = Inr s2
         \<and> fle s2 s1 \<and> fle (Fin 0) s2 \<and> fle s1 (Fin 10)))
   \<and> (flt TOLERANCE e1 \<and> fle e1 (Fin (1004 / 10000)) \<longrightarrow> score_of_error e1 = Inr (Fin 10))
   \<and> (fle (Fin (9996 / 10000)) e2 \<and> flt e2 (Fin 1) \<longrightarrow> score_of_error e2 = Inr (Fin 0))"
proof (intro conjI impI)
  assume "flt TOLERANCE e1 \<and> fle e1 e2 \<and> flt e2 (Fin 1)"
  then obtain a b where ab: "e1 = Fin a" "e2 = Fin b" "tol_q < a" "a \<le> b" "b < 1"
    using interval_Fin[of tol_q e1 e2 1] unfolding tolerance_q by blast
  have a1: "a < 1" and tb: "tol_q < b" using ab by simp_all
  have "linear_score b \<le> linear_score a"
    using ab by (intro linear_score_antimono) simp_all
  moreover have "0 \<le> linear_score b" using linear_score_bounds[of b] tb ab by simp
  moreover have "linear_score a \<le> 10" using linear_score_bounds[of a] a1 ab by simp
  ultimately show "\<exists>s1 s2. score_of_error e1 = Inr s1 \<and> score_of_error e2 = Inr s2
         \<and> fle s2 s1 \<and> fle (Fin 0) s2 \<and> fle s1 (Fin 10)"
    using score_of_error_mid[OF ab(3) a1] score_of_error_mid[OF tb ab(5)] ab(1,2) by simp
next
  assume "flt TOLERANCE e1 \<and> fle e1 (Fin (1004 / 10000))"
  then obtain a where a: "e1 = Fin a" "tol_q < a" "a \<le> 1004 / 10000"
    unfolding tolerance_q by (cases e1) simp_all
  have a1: "a < 1" using a by simp
  have "linear_score (1004 / 10000) \<le> linear_score a"
    using a by (intro linear_score_antimono) simp_all
  then have "10 \<le> linear_score a" using lo_lin by simp
  moreover have "linear_score a \<le> 10" using linear_score_bounds[of a] a a1 by simp
  ultimately have "linear_score a = 10" by simp
  then show "score_of_error e1 = Inr (Fin 10)"
    using score_of_error_mid[OF a(2) a1] a(1) by simp
next
  assume "fle (Fin (9996 / 10000)) e2 \<and> flt e2 (Fin 1)"
  then obtain b where b: "e2 = Fin b" "9996 / 10000 \<le> b" "b < 1"
    by (cases e2) simp_all
  have tb: "tol_q < b" using b by (simp add: tol_q_def)
  have t: "tol_q \<le> 9996 / 10000" by (simp add: tol_q_def)
  have "linear_score b \<le> linear_score (9996 / 10000)"
    using b t by (intro linear_score_antimono) simp_all
  then have "linear_score b \<le> 0" using hi_lin by simp
  moreover have "0 \<le> linear_score b" using linear_score_bounds[of b] tb b by simp
  ultimately have "linear_score b = 0" by simp
  then show "score_of_error e2 = Inr (Fin 0)"
    using score_of_error_mid[OF tb b(3)] b(1) by simp
qed

theorem score_non_increasing_witness:
  "score_of_error (Fin (4503599627370495 / 9007199254740992)) = Inr (rnd64 (556 / 100))
   \<and> score_of_error (Fin (4503779771355591 / 9007199254740992)) = Inr (rnd64 (556 / 100))
   \<and> fle (rnd64 (556 / 100)) (rnd64 (556 / 100))
   \<and> score_of_error (Fin (7220170922600375 / 72057594037927936)) = Inr (Fin 10)
   \<and> score_of_error (Fin (4502698907445021 / 4503599627370496)) = Inr (Fin 0)"
proof -
  have h1: "flt TOLERANCE (Fin (4503599627370495 / 9007199254740992)) \<and> fle (Fin (4503599627370495 / 9007199254740992)) (Fin (4503779771355591 / 9007199254740992)) \<and> flt (Fin (4503779771355591 / 9007199254740992)) (Fin 1)"
    by (simp add: tolerance_val)
  obtain s1 s2 where s: "score_of_error (Fin (4503599627370495 / 9007199254740992)) = Inr s1" "score_of_error (Fin (4503779771355591 / 9007199254740992)) = Inr s2"
      "fle s2 s1"
    using score_non_increasing[of "Fin (4503599627370495 / 9007199254740992)" "Fin (4503779771355591 / 9007199254740992)", THEN conjunct1, THEN mp, OF h1] by blast
  have v: "rnd64 (556 / 100) = Fin (6260003482044989 / 1125899906842624)" using sd_s by simp
  note 1 = ev_score_D and 2 = ev_score_E
  have a: "fle (rnd64 (556 / 100)) (rnd64 (556 / 100))" using s 1 2 unfolding v by simp
  have h2: "flt TOLERANCE (Fin (7220170922600375 / 72057594037927936)) \<and> fle (Fin (7220170922600375 / 72057594037927936)) (Fin (1004 / 10000))"
    by (simp add: tolerance_val)
  have b: "score_of_error (Fin (7220170922600375 / 72057594037927936)) = Inr (Fin 10)"
    by (rule score_non_increasing[THEN conjunct2, THEN conjunct1, THEN mp, OF h2])
  have h3: "fle (Fin (9996 / 10000)) (Fin (4502698907445021 / 4503599627370496)) \<and> flt (Fin (4502698907445021 / 4503599627370496)) (Fin 1)"
    by simp
  have c: "score_of_error (Fin (4502698907445021 / 4503599627370496)) = Inr (Fin 0)"
    by (rule score_non_increasing[THEN conjunct2, THEN conjunct2, THEN mp, OF h3])
  show ?thesis using a b c 1 2 unfolding v by simp
qed

text \<open>
  Claim C10. The two numbers of a match are unsigned runs of digits and dots, and
  nothing else: every tuple that \<^verbatim>\<open>re.findall\<close> returns has two non-empty groups
  made of the characters \<^verbatim>\<open>0\<close> to \<^verbatim>\<open>9\<close> and \<^verbatim>\<open>.\<close> only; and where the
  marker text, in any letter case, is followed by digits and dots and then by a
  character that is neither of these nor the comma (a sign, or the \<^verbatim>\<open>e\<close> of an
  exponent), the pattern does not match there.
\<close>

theorem numbers_are_unsigned_decimals:
  "(\<forall>gs\<in>set (re_findall True ideal_point_pattern out).
      \<exists>g1 g2. gs = [g1, g2] \<and> g1 \<noteq> [] \<and> g2 \<noteq> []
        \<and> (\<forall>c\<in>set g1. is_digit c \<or> c = CHR ''.'')
        \<and> (\<forall>c\<in>set g2. is_digit c \<or> c = CHR ''.''))
   \<and> (\<forall>m d x rest.
         map lower m = map lower ''Ideal point: z = [''
         \<and> (\<forall>c\<in>set d. is_digit c \<or> c = CHR ''.'')
         \<and> \<not> (is_digit x \<or> x = CHR ''.'') \<and> x \<noteq> CHR '','' \<longrightarrow>
       rmatch True ideal_point_pattern (m @ d @ x # rest) = None)"
proof (intro conjI ballI allI impI)
  fix gs assume "gs \<in> set (re_findall True ideal_point_pattern out)"
  then show "\<exists>g1 g2. gs = [g1, g2] \<and> g1 \<noteq> [] \<and> g2 \<noteq> []
        \<and> (\<forall>c\<in>set g1. is_digit c \<or> c = CHR ''.'')
        \<and> (\<forall>c\<in>set g2. is_digit c \<or> c = CHR ''.'')"
    by (rule findall_ideal_shape)
next
  fix m d x rest
  assume h: "map lower m = map lower ''Ideal point: z = [''
         \<and> (\<forall>c\<in>set d. is_digit c \<or> c = CHR ''.'')
         \<and> \<not> (is_digit x \<or> x = CHR ''.'') \<and> x \<noteq> CHR '',''"
  show "rmatch True ideal_point_pattern (m @ d @ x # rest) = None"
    by (rule rmatch_ideal_bad_number) (use h in simp_all)
qed

theorem numbers_are_unsigned_decimals_witness:
  "(\<exists>g1 g2. [''0.005'', ''0.1''] = [g1, g2] \<and> g1 \<noteq> [] \<and> g2 \<noteq> []
        \<and> (\<forall>c\<in>set g1. is_digit c \<or> c = CHR ''.'')
        \<and> (\<forall>c\<in>set g2. is_digit c \<or> c = CHR ''.''))
   \<and> rmatch True ideal_point_pattern ''Ideal point: z = [-0.005, 0.1]'' = None
   \<and> rmatch True ideal_point_pattern ''IDEAL POINT: Z = [5e-3, 0.2]'' = None
   \<and> grade_result (Some ''Ideal point: z = [-0.005, 0.1]'') = Inr (PyInt 0, [Txt not_found_message])
   \<and> grade_result (Some ''Ideal point: z = [5e-3, 0.2]'') = Inr (PyInt 0, [Txt not_found_message])"
proof -
  let ?out = "''Ideal point: z = [0.005, 0.1]'' @ [CHR 0x0A] @ ''Ideal point: z = [5e-3, 0.2]''"
  have "[''0.005'', ''0.1''] \<in> set (re_findall True ideal_point_pattern ?out)"
    unfolding ev_findall_earlier by simp
  then have a: "\<exists>g1 g2. [''0.005'', ''0.1''] = [g1, g2] \<and> g1 \<noteq> [] \<and> g2 \<noteq> []
        \<and> (\<forall>c\<in>set g1. is_digit c \<or> c = CHR ''.'')
        \<and> (\<forall>c\<in>set g2. is_digit c \<or> c = CHR ''.'')"
    by (rule numbers_are_unsigned_decimals[THEN conjunct1, rule_format])
  have h1: "map lower ''Ideal point: z = ['' = map lower ''Ideal point: z = [''
         \<and> (\<forall>c\<in>set []. is_digit c \<or> c = CHR ''.'')
         \<and> \<not> (is_digit CHR ''-'' \<or> CHR ''-'' = CHR ''.'') \<and> CHR ''-'' \<noteq> CHR '',''"
    by (simp add: is_digit_def)
  have b: "rmatch True ideal_point_pattern (''Ideal point: z = ['' @ [] @ CHR ''-'' # ''0.005, 0.1]'') = None"
    by (rule numbers_are_unsigned_decimals[THEN conjunct2, rule_format, OF h1])
  have up: "map lower ''IDEAL POINT: Z = ['' = map lower ''Ideal point: z = [''"
    by code_simp
  have h2: "map lower ''IDEAL POINT: Z = ['' = map lower ''Ideal point: z = [''
         \<and> (\<forall>c\<in>set ''5''. is_digit c \<or> c = CHR ''.'')
         \<and> \<not> (is_digit CHR ''e'' \<or> CHR ''e'' = CHR ''.'') \<and> CHR ''e'' \<noteq> CHR '',''"
    using up by (simp add: is_digit_def)
  have c: "rmatch True ideal_point_pattern (''IDEAL POINT: Z = ['' @ ''5'' @ CHR ''e'' # ''-3, 0.2]'') = None"
    by (rule numbers_are_unsigned_decimals[THEN conjunct2, rule_format, OF h2])
  have d: "grade_result (Some ''Ideal point: z = [-0.005, 0.1]'') = Inr (PyInt 0, [Txt not_found_message])"
    by (rule grade_not_found[OF ev_findall_negative])
  have e: "grade_result (Some ''Ideal point: z = [5e-3, 0.2]'') = Inr (PyInt 0, [Txt not_found_message])"
    by (rule grade_not_found[OF ev_findall_scientific])
  show ?thesis using a b c d e by simp
qed

section \<open>Further properties\<close>

text \<open>
  Score range. The score of any relative error is a finite float between 0 and 10, so the score of a
  report lies in the range the data model gives it.
\<close>

theorem score_within_bounds:
  "\<exists>s. score_of_error e = Inr (Fin s) \<and> 0 \<le> s \<and> s \<le> 10"
proof (cases "fle e TOLERANCE")
  case True
  then show ?thesis by (simp add: score_of_error_def round2_ten del: round2.simps)
next
  case False
  show ?thesis
  proof (cases "flt e (Fin 1)")
    case True
    then obtain a where a: "e = Fin a" "tol_q < a" "a < 1"
      using False unfolding tolerance_q by (cases e) simp_all
    have "0 \<le> linear_score a \<and> linear_score a \<le> 10"
      using linear_score_bounds[of a] a by simp
    then show ?thesis using score_of_error_mid[OF a(2,3)] a(1) by simp
  next
    case f: False
    then show ?thesis using False
      by (simp add: score_of_error_def round2_zero del: round2.simps)
  qed
qed

text \<open>
  Reports. \<^verbatim>\<open>main\<close> raises only in the loop over the cells: when the notebook cannot
  be read, or was read and the loop can read each of its cells, the run ends with a report
  of the fixed shape; when the notebook was read and the loop cannot read one of its cells,
  an exception leaves \<^verbatim>\<open>main\<close> and nothing was started. In each of the other ways a
  run can fail (the notebook cannot be read; the configuration literal is found; the
  subprocess times out, ends with a non-zero return code, or cannot be run; the marker is
  not in the output; its first number is not a float) the report has score 0 and the
  message of that failure as its feedback.
\<close>

theorem report_unless_cell_unreadable:
  "(\<forall>cells. nb_read w notebook_path = Inr cells \<and> (\<forall>c\<in>set cells. readable_cell c) \<longrightarrow>
         (\<exists>score feedback. fst (main w) = Inr (test_result score feedback)))
   \<and> (\<forall>cells. nb_read w notebook_path = Inr cells \<and> \<not> (\<forall>c\<in>set cells. readable_cell c) \<longrightarrow>
         (\<exists>e. main w = (Inl e, [])))
   \<and> (\<forall>e. nb_read w notebook_path = Inl e \<longrightarrow>
         fst (main w) = Inr (test_result (PyInt 0) [Txt (''Error reading notebook file: '' @ e)]))
   \<and> (\<forall>cells full_code. nb_read w notebook_path = Inr cells
         \<and> collect_code [] cells = Inr full_code
         \<and> sublist ''n_subproblems = 1'' full_code \<longrightarrow>
         fst (main w) = Inr (test_result (PyInt 0) [Txt not_configured_message]))
   \<and> (\<forall>cells full_code. nb_read w notebook_path = Inr cells
         \<and> collect_code [] cells = Inr full_code
         \<and> \<not> sublist ''n_subproblems = 1'' full_code
         \<and> subprocess_run w [sys_executable w, ''-c'', full_code] 240 = TimeoutExpired \<longrightarrow>
         fst (main w) = Inr (test_result (PyInt 0) [Txt timeout_message]))
   \<and> (\<forall>cells full_code returncode out err. nb_read w notebook_path = Inr cells
         \<and> collect_code [] cells = Inr full_code
         \<and> \<not> sublist ''n_subproblems = 1'' full_code
         \<and> subprocess_run w [sys_executable w, ''-c'', full_code] 240
             = Completed returncode out err
         \<and> returncode \<noteq> 0 \<longrightarrow>
         fst (main w) = Inr (test_result (PyInt 0)
           [Txt (''Code execution failed with an error:'' @ [CHR 0x0A] @ err)]))
   \<and> (\<forall>cells full_code e. nb_read w notebook_path = Inr cells
         \<and> collect_code [] cells = Inr full_code
         \<and> \<not> sublist ''n_subproblems = 1'' full_code
         \<and> subprocess_run w [sys_executable w, ''-c'', full_code] 240 = RunError e \<longrightarrow>
         fst (main w) = Inr (test_result (PyInt 0)
           [Txt (''An unexpected error occurred during execution: '' @ e)]))
   \<and> (\<forall>cells full_code out err. nb_read w notebook_path = Inr cells
         \<and> collect_code [] cells = Inr full_code
         \<and> \<not> sublist ''n_subproblems = 1'' full_code
         \<and> subprocess_run w [sys_executable w, ''-c'', full_code] 240
             = Completed 0 out err
         \<and> re_findall True ideal_point_pattern out = [] \<longrightarrow>
         fst (main w) = Inr (test_result (PyInt 0) [Txt not_found_message]))
   \<and> (\<forall>cells full_code out err e. nb_read w notebook_path = Inr cells
         \<and> collect_code [] cells = Inr full_code
         \<and> \<not> sublist ''n_subproblems = 1'' full_code
         \<and> subprocess_run w [sys_executable w, ''-c'', full_code] 240
             = Completed 0 out err
         \<and> re_findall True ideal_point_pattern out \<noteq> []
         \<and> student_value (re_findall True ideal_point_pattern out) = Inl e \<longrightarrow>
         fst (main w) = Inr (test_result (PyInt 0) [Txt not_parsed_message]))"
proof (intro conjI allI impI)
  fix cells assume h: "nb_read w notebook_path = Inr cells \<and> (\<forall>c\<in>set cells. readable_cell c)"
  then obtain full_code where cc: "collect_code [] cells = Inr full_code"
    using collect_code_returns_iff[of "[]" cells] by blast
  have "\<exists>returned. fst (execute_notebook w notebook_path) = Inr returned"
  proof (cases "sublist ''n_subproblems = 1'' full_code")
    case True
    then show ?thesis using exec_gate[OF conjunct1[OF h] cc] by simp
  next
    case False
    then show ?thesis using exec_run[OF conjunct1[OF h] cc] by simp
  qed
  then show "\<exists>score feedback. fst (main w) = Inr (test_result score feedback)"
    using main_reports by blast
next
  fix cells assume h: "nb_read w notebook_path = Inr cells \<and> \<not> (\<forall>c\<in>set cells. readable_cell c)"
  then obtain e where "collect_code [] cells = Inl e"
    using collect_code_raises[of cells "[]"] by blast
  then have "main w = (Inl e, [])"
    using main_raised exec_raised[OF conjunct1[OF h]] by blast
  then show "\<exists>e. main w = (Inl e, [])" by blast
next
  fix e assume "nb_read w notebook_path = Inl e"
  then have "fst (execute_notebook w notebook_path) = Inr (None, Some (''Error reading notebook file: '' @ e))"
    by (simp add: exec_unreadable)
  then show "fst (main w) = Inr (test_result (PyInt 0) [Txt (''Error reading notebook file: '' @ e)])"
    by (rule fst_main_error) simp
next
  fix cells full_code assume "nb_read w notebook_path = Inr cells
         \<and> collect_code [] cells = Inr full_code
         \<and> sublist ''n_subproblems = 1'' full_code"
  then have "fst (execute_notebook w notebook_path) = Inr (None, Some not_configured_message)"
    by (simp add: exec_gate)
  then show "fst (main w) = Inr (test_result (PyInt 0) [Txt not_configured_message])"
    by (rule fst_main_error) (simp add: not_configured_message_def)
next
  fix cells full_code assume "nb_read w notebook_path = Inr cells
         \<and> collect_code [] cells = Inr full_code
         \<and> \<not> sublist ''n_subproblems = 1'' full_code
         \<and> subprocess_run w [sys_executable w, ''-c'', full_code] 240 = TimeoutExpired"
  then have "fst (execute_notebook w notebook_path) = Inr (None, Some timeout_message)"
    by (simp add: exec_run)
  then show "fst (main w) = Inr (test_result (PyInt 0) [Txt timeout_message])"
    by (rule fst_main_error) (simp add: timeout_message_def)
next
  fix cells full_code returncode out err assume "nb_read w notebook_path = Inr cells
         \<and> collect_code [] cells = Inr full_code
         \<and> \<not> sublist ''n_subproblems = 1'' full_code
         \<and> subprocess_run w [sys_executable w, ''-c'', full_code] 240
             = Completed returncode out err
         \<and> returncode \<noteq> 0"
  then have "fst (execute_notebook w notebook_path)
      = Inr (None, Some (''Code execution failed with an error:'' @ [CHR 0x0A] @ err))"
    by (simp add: exec_run)
  then show "fst (main w) = Inr (test_result (PyInt 0)
           [Txt (''Code execution failed with an error:'' @ [CHR 0x0A] @ err)])"
    by (rule fst_main_error) simp
next
  fix cells full_code e assume "nb_read w notebook_path = Inr cells
         \<and> collect_code [] cells = Inr full_code
         \<and> \<not> sublist ''n_subproblems = 1'' full_code
         \<and> subprocess_run w [sys_executable w, ''-c'', full_code] 240 = RunError e"
  then have "fst (execute_notebook w notebook_path)
      = Inr (None, Some (''An unexpected error occurred during execution: '' @ e))"
    by (simp add: exec_run)
  then show "fst (main w) = Inr (test_result (PyInt 0)
           [Txt (''An unexpected error occurred during execution: '' @ e)])"
    by (rule fst_main_error) simp
next
  fix cells full_code out err assume h: "nb_read w notebook_path = Inr cells
         \<and> collect_code [] cells = Inr full_code
         \<and> \<not> sublist ''n_subproblems = 1'' full_code
         \<and> subprocess_run w [sys_executable w, ''-c'', full_code] 240
             = Completed 0 out err
         \<and> re_findall True ideal_point_pattern out = []"
  then have "fst (execute_notebook w notebook_path) = Inr (Some out, None)"
    by (simp add: exec_run)
  moreover have "grade_result (Some out) = Inr (PyInt 0, [Txt not_found_message])"
    using h grade_not_found by blast
  ultimately show "fst (main w) = Inr (test_result (PyInt 0) [Txt not_found_message])"
    by (rule fst_main_graded)
next
  fix cells full_code out err e assume h: "nb_read w notebook_path = Inr cells
         \<and> collect_code [] cells = Inr full_code
         \<and> \<not> sublist ''n_subproblems = 1'' full_code
         \<and> subprocess_run w [sys_executable w, ''-c'', full_code] 240
             = Completed 0 out err
         \<and> re_findall True ideal_point_pattern out \<noteq> []
         \<and> student_value (re_findall True ideal_point_pattern out) = Inl e"
  then have "fst (execute_notebook w notebook_path) = Inr (Some out, None)"
    by (simp add: exec_run)
  moreover have "grade_result (Some out) = Inr (PyInt 0, [Txt not_parsed_message])"
    using h grade_not_parsed by blast
  ultimately show "fst (main w) = Inr (test_result (PyInt 0) [Txt not_parsed_message])"
    by (rule fst_main_graded)
qed

text \<open>
  Single execution. One run starts at most one subprocess: the student's code is never run a second
  time, whatever the outcome.
\<close>

theorem at_most_one_subprocess:
  "length (snd (main w)) \<le> 1"
proof -
  have "snd (main w) = snd (execute_notebook w notebook_path)"
    by (simp add: main_def Let_def split: prod.splits)
  then show ?thesis using spawned_at_most_once[of w notebook_path] by simp
qed

text \<open>
  No exception in the grader. \<^verbatim>\<open>grade_result\<close> raises nothing: the exceptions of \<^verbatim>\<open>float\<close> are caught, and
  no division is by zero.
\<close>

theorem grade_result_never_raises:
  "\<exists>score feedback. grade_result r = Inr (score, feedback)"
  by (rule grade_result_total)

text \<open>
  Placeholder lines. The substitution \<^verbatim>\<open>re.sub(r".*# YOUR CODE HERE.*", "1", source)\<close> is the
  replacement, line by line, of the lines that contain the sentinel.
\<close>

theorem placeholder_substitution_by_lines:
  "re_sub False placeholder_pattern ''1'' s = replace_placeholder_lines s"
  by (rule re_sub_placeholder_lines)

end
